theory Spec2Isabelle
  imports Complex_Main "HOL-Library.Char_ord" "HOL-Library.List_Lexorder" "HOL-Library.Product_Lexorder"
begin

section \<open>Values\<close>

text \<open>
  The pipeline works on pandas data frames of Python floats and strings.  A column read
  from a form holds numbers, with NaN for a missing one: \<open>real option\<close>, \<open>None\<close> being
  NaN.  A column computed by a division can also hold an infinity: \<open>pyfloat\<close>.  Numbers
  are exact reals; rounding and the sign of zero are not modelled.  A cell of a column
  of mixed content is missing, a number or a string.
\<close>

datatype pyfloat = NaN | Fin real | PInf | NInf

datatype cell = NA | Number real | Text string

datatype py_error = IndexError | KeyError | TypeError

section \<open>\<^verbatim>\<open>database_interface.py\<close>: \<^verbatim>\<open>assign_heat_rates_to_projects\<close>\<close>

text \<open>
  The two columns that every frame of generating units carries: the technology code and
  the energy source.
\<close>

record fuel_unit =
  prime_mover :: string
  energy_source :: string

text \<open>
  One row of \<^verbatim>\<open>thermal_gens\<close>, with the four columns the heat-rate code reads.  The
  type of the \<^verbatim>\<open>Best Heat Rate\<close> column is a parameter: \<open>pyfloat\<close> for the frame
  as it is read, \<open>real\<close> for \<^verbatim>\<open>thermal_gens_w_hr\<close>, whose rows have passed the
  not-null and plausibility filters.
\<close>

record 'h generator = fuel_unit +
  operating_year :: int
  best_heat_rate :: 'h

text \<open>\<^verbatim>\<open>Series.mean()\<close>: NaN on an empty series.\<close>

definition mean :: "real list \<Rightarrow> pyfloat" where
  "mean xs = (if xs = [] then NaN else Fin (sum_list xs / real (length xs)))"

subsection \<open>\<^verbatim>\<open>calculate_avg_heat_rate\<close>\<close>

text \<open>The boolean-mask selection that the function writes out twice.\<close>

definition similar_generators ::
  "real generator list \<Rightarrow> string \<Rightarrow> string \<Rightarrow> int \<Rightarrow> int \<Rightarrow> real generator list" where
  "similar_generators thermal_gens_df pm es vintage window =
     filter (\<lambda>g. prime_mover g = pm \<and> energy_source g = es \<and>
                 operating_year g \<ge> vintage - window \<and>
                 operating_year g \<le> vintage + window) thermal_gens_df"

text \<open>
  The \<^verbatim>\<open>while len(similar_generators) < 4\<close> loop with its \<^verbatim>\<open>break\<close>.  The state is
  the window and the current selection; \<open>None\<close> would mean that the loop never exits.
\<close>

partial_function (option) enlarge_window ::
  "real generator list \<Rightarrow> string \<Rightarrow> string \<Rightarrow> int \<Rightarrow> int \<Rightarrow> real generator list
   \<Rightarrow> (int \<times> real generator list) option" where
  "enlarge_window thermal_gens_df pm es vintage window similar =
     (if length similar < 4 then
        (if window + 2 \<ge> 103
         then Some (window + 2, similar_generators thermal_gens_df pm es vintage (window + 2))
         else enlarge_window thermal_gens_df pm es vintage (window + 2)
                (similar_generators thermal_gens_df pm es vintage (window + 2)))
      else Some (window, similar))"

definition technology_average :: "real generator list \<Rightarrow> string \<Rightarrow> pyfloat" where
  "technology_average thermal_gens_df pm =
     mean (map best_heat_rate (filter (\<lambda>g. prime_mover g = pm) thermal_gens_df))"

definition calculate_avg_heat_rate ::
  "real generator list \<Rightarrow> string \<Rightarrow> string \<Rightarrow> int \<Rightarrow> int \<Rightarrow> pyfloat option" where
  "calculate_avg_heat_rate thermal_gens_df pm es vintage window =
     (case enlarge_window thermal_gens_df pm es vintage window
             (similar_generators thermal_gens_df pm es vintage window) of
        None \<Rightarrow> None
      | Some (w, similar) \<Rightarrow>
          Some (if length similar > 0 then mean (map best_heat_rate similar)
                else technology_average thermal_gens_df pm))"

text \<open>
  The search as the specification words it, for comparison: the window is doubled
  (2, 4, 8, 16, 32, 64) and capped at 103.
\<close>

fun spec_peers :: "real generator list \<Rightarrow> string \<Rightarrow> string \<Rightarrow> int \<Rightarrow> int list \<Rightarrow> real generator list" where
  "spec_peers df pm es vintage [] = similar_generators df pm es vintage 103"
| "spec_peers df pm es vintage (w # ws) =
     (if length (similar_generators df pm es vintage w) < 4 then spec_peers df pm es vintage ws
      else similar_generators df pm es vintage w)"

definition spec_avg_heat_rate :: "real generator list \<Rightarrow> string \<Rightarrow> string \<Rightarrow> int \<Rightarrow> pyfloat" where
  "spec_avg_heat_rate df pm es vintage =
     (let peers = spec_peers df pm es vintage [2, 4, 8, 16, 32, 64] in
      if peers \<noteq> [] then mean (map best_heat_rate peers) else technology_average df pm)"


subsection \<open>Null and unrealistic heat rates\<close>

text \<open>
  Python's \<^verbatim>\<open><\<close> on floats: false whenever an operand is NaN.  \<^verbatim>\<open>x > y\<close> is
  \<open>float_less y x\<close>.
\<close>

fun float_less :: "pyfloat \<Rightarrow> pyfloat \<Rightarrow> bool" where
  "float_less NaN _ = False"
| "float_less _ NaN = False"
| "float_less (Fin a) (Fin b) = (a < b)"
| "float_less (Fin _) PInf = True"
| "float_less (Fin _) NInf = False"
| "float_less PInf _ = False"
| "float_less NInf NInf = False"
| "float_less NInf _ = True"

definition null_heat_rates :: "pyfloat generator \<Rightarrow> bool" where
  "null_heat_rates g = (best_heat_rate g = NaN)"

definition unrealistic_heat_rates :: "pyfloat generator \<Rightarrow> bool" where
  "unrealistic_heat_rates g =
     ((energy_source g = ''Coal'' \<and> float_less (best_heat_rate g) (Fin 8.607)) \<or>
      (energy_source g \<noteq> ''Coal'' \<and> float_less (best_heat_rate g) (Fin 6.711)) \<or>
      float_less (Fin 100) (best_heat_rate g))"

text \<open>
  \<^verbatim>\<open>thermal_gens[~null_heat_rates & ~unrealistic_heat_rates]\<close>.  A row that passes both
  masks holds a finite number (lemma \<open>kept_heat_rate_is_finite\<close> below), which
  \<open>with_real_heat_rate\<close> reads off; its other case is never used.
\<close>

definition with_real_heat_rate :: "pyfloat generator \<Rightarrow> real generator" where
  "with_real_heat_rate g =
     \<lparr>prime_mover = prime_mover g, energy_source = energy_source g,
      operating_year = operating_year g,
      best_heat_rate = (case best_heat_rate g of Fin r \<Rightarrow> r | _ \<Rightarrow> 0)\<rparr>"

definition thermal_gens_w_hr :: "pyfloat generator list \<Rightarrow> real generator list" where
  "thermal_gens_w_hr thermal_gens =
     map with_real_heat_rate
       (filter (\<lambda>g. \<not> null_heat_rates g \<and> \<not> unrealistic_heat_rates g) thermal_gens)"

definition thermal_gens_wo_hr :: "pyfloat generator list \<Rightarrow> pyfloat generator list" where
  "thermal_gens_wo_hr thermal_gens =
     filter (\<lambda>g. null_heat_rates g \<or> unrealistic_heat_rates g) thermal_gens"

subsection \<open>The top and bottom 0.5 per cent\<close>

text \<open>
  \<^verbatim>\<open>n_outliers = int(len(thermal_gens_w_hr)*0.005)\<close>.  The double nearest to 0.005 lies
  above it by about \<open>10\<^sup>-\<^sup>1\<^sup>9\<close>, so for every length a frame can have the product
  truncates to the integer quotient by 200.
\<close>

definition n_outliers :: "real generator list \<Rightarrow> nat" where
  "n_outliers w_hr = length w_hr div 200"

text \<open>
  \<^verbatim>\<open>sort_values('Best Heat Rate')\<close>.  pandas does not promise an order among rows of
  equal heat rate; a stable sort is taken here.  The heat rate a row ends with does not
  depend on that choice.
\<close>

definition sort_values :: "real generator list \<Rightarrow> real generator list" where
  "sort_values w_hr = sort_key best_heat_rate w_hr"

definition min_hr :: "real generator list \<Rightarrow> real" where
  "min_hr w_hr = best_heat_rate (sort_values w_hr ! n_outliers w_hr)"

definition max_hr :: "real generator list \<Rightarrow> real" where
  "max_hr w_hr =
     best_heat_rate (sort_values w_hr ! (length w_hr - 1 - n_outliers w_hr))"

text \<open>
  One round of the \<^verbatim>\<open>for i in range(n_outliers)\<close> loop: row \<open>i\<close> of the sorted frame
  gets \<open>lo\<close>, row \<open>-1-i\<close> gets \<open>hi\<close>.
\<close>

definition clamp_round :: "real \<Rightarrow> real \<Rightarrow> nat \<Rightarrow> real generator list \<Rightarrow> real generator list" where
  "clamp_round lo hi i df =
     (let df1 = df[i := (df ! i)\<lparr>best_heat_rate := lo\<rparr>];
          j = length df1 - 1 - i
      in df1[j := (df1 ! j)\<lparr>best_heat_rate := hi\<rparr>])"

text \<open>
  The whole step.  On an empty frame \<^verbatim>\<open>thermal_gens_w_hr.index[n_outliers]\<close> raises
  IndexError; on any other frame both indices are in range.
\<close>

definition clamp_outliers :: "real generator list \<Rightarrow> py_error + real generator list" where
  "clamp_outliers w_hr =
     (if w_hr = [] then Inl IndexError
      else Inr (fold (clamp_round (min_hr w_hr) (max_hr w_hr)) [0..<n_outliers w_hr]
                  (sort_values w_hr)))"

subsection \<open>The rows without a heat rate\<close>

text \<open>
  The loop over \<^verbatim>\<open>thermal_gens_wo_hr.index\<close>: every row gets the estimate computed from
  the clamped frame.  \<open>None\<close> if an estimate never returned.
\<close>

definition assign_avg_heat_rates ::
  "real generator list \<Rightarrow> pyfloat generator list \<Rightarrow> pyfloat generator list option" where
  "assign_avg_heat_rates w_hr wo_hr =
     those (map (\<lambda>g. map_option (\<lambda>h. g\<lparr>best_heat_rate := h\<rparr>)
                       (calculate_avg_heat_rate w_hr (prime_mover g) (energy_source g)
                          (operating_year g) 2)) wo_hr)"

text \<open>
  The heat-rate part of \<^verbatim>\<open>assign_heat_rates_to_projects\<close>.  The code concatenates the
  two frames into \<^verbatim>\<open>thermal_gens\<close>; the model keeps them apart, the rows whose heat rate
  was read from the data first, the rows whose heat rate was estimated second.
\<close>

definition assign_heat_rates ::
  "pyfloat generator list
   \<Rightarrow> (py_error + real generator list \<times> pyfloat generator list) option" where
  "assign_heat_rates thermal_gens =
     (case clamp_outliers (thermal_gens_w_hr thermal_gens) of
        Inl e \<Rightarrow> Some (Inl e)
      | Inr w_hr \<Rightarrow>
          map_option (\<lambda>wo_hr. Inr (w_hr, wo_hr))
            (assign_avg_heat_rates w_hr (thermal_gens_wo_hr thermal_gens)))"

text \<open>The plausibility band of the specification.\<close>

definition within_band :: "string \<Rightarrow> real \<Rightarrow> bool" where
  "within_band es h = ((if es = ''Coal'' then 8.607 \<le> h else 6.711 \<le> h) \<and> h \<le> 100)"

section \<open>\<^verbatim>\<open>database_interface.py\<close>: \<^verbatim>\<open>upload_generation_projects\<close>\<close>

text \<open>
  The columns the two frames are joined on, \<^verbatim>\<open>index_cols\<close>: EIA Plant Code, Prime
  Mover, State, County, Operating Year.
\<close>

type_synonym index_cols = "int \<times> string \<times> string \<times> string \<times> int"

record keyed =
  index_cols :: index_cols

text \<open>A row of \<^verbatim>\<open>generators\<close>, with its \<^verbatim>\<open>Nameplate Capacity (MW)\<close>.\<close>

record project = keyed +
  nameplate_capacity_mw :: real

text \<open>
  A row of \<^verbatim>\<open>retired_gens\<close>; \<open>retired_mw\<close> is its column \<^verbatim>\<open>retired_capacity_mw\<close>.
\<close>

record retired_gen = keyed +
  retired_mw :: real

text \<open>
  A row of \<^verbatim>\<open>generators_and_retired\<close>.  In the two added columns \<open>None\<close> is NaN: the
  left join found no retired record for the row.
\<close>

record netted = project +
  retired_capacity_mw :: "real option"
  net_operating_capacity_limit_mw :: "real option"

text \<open>
  \<^verbatim>\<open>pd.merge(generators, retired_gens, on=index_cols, how='left')\<close>: the retired
  capacities a row is paired with, one output row for each.
\<close>

definition left_matches :: "project \<Rightarrow> retired_gen list \<Rightarrow> real option list" where
  "left_matches g retired_gens =
     (case filter (\<lambda>r. index_cols r = index_cols g) retired_gens of
        [] \<Rightarrow> [None]
      | ms \<Rightarrow> map (\<lambda>r. Some (retired_mw r)) ms)"

text \<open>The join, and the subtraction that adds the net-capacity column.\<close>

definition generators_and_retired :: "project list \<Rightarrow> retired_gen list \<Rightarrow> netted list" where
  "generators_and_retired generators retired_gens =
     concat (map (\<lambda>g. map (\<lambda>ret.
        \<lparr>index_cols = index_cols g, nameplate_capacity_mw = nameplate_capacity_mw g,
         retired_capacity_mw = ret,
         net_operating_capacity_limit_mw = map_option (\<lambda>r. nameplate_capacity_mw g - r) ret\<rparr>)
        (left_matches g retired_gens)) generators)"

text \<open>
  Rows whose net capacity is 0 are dropped (\<^verbatim>\<open>NaN != 0\<close> holds); then
  \<^verbatim>\<open>np.where(net > 0, net, nameplate)\<close> replaces the nameplate capacity.
\<close>

definition generators_no_retired :: "netted list \<Rightarrow> netted list" where
  "generators_no_retired gar =
     map (\<lambda>j. j\<lparr>nameplate_capacity_mw :=
                  (case net_operating_capacity_limit_mw j of
                     Some n \<Rightarrow> if n > 0 then n else nameplate_capacity_mw j
                   | None \<Rightarrow> nameplate_capacity_mw j)\<rparr>)
       (filter (\<lambda>j. net_operating_capacity_limit_mw j \<noteq> Some 0) gar)"

text \<open>
  The frame that goes on to the database, after the two helper columns are dropped
  again.
\<close>

definition netted_generators :: "project list \<Rightarrow> retired_gen list \<Rightarrow> project list" where
  "netted_generators generators retired_gens =
     map (\<lambda>j. \<lparr>index_cols = index_cols j, nameplate_capacity_mw = nameplate_capacity_mw j\<rparr>)
       (generators_no_retired (generators_and_retired generators retired_gens))"

section \<open>\<^verbatim>\<open>scrape.py\<close>: \<^verbatim>\<open>parse_eia860_data\<close>\<close>

subsection \<open>Cells in order\<close>

text \<open>
  \<^verbatim>\<open>groupby\<close> sorts the group keys and \<^verbatim>\<open>max\<close> compares cells.  Python 2 puts every
  number before every string, numbers in their order and strings in lexicographic order
  of their characters.  A missing cell is never compared: it is skipped by \<^verbatim>\<open>max\<close> and
  has been filled in before a key is formed.
\<close>

fun cell_rank :: "cell \<Rightarrow> nat \<times> real \<times> string" where
  "cell_rank NA = (0, 0, [])"
| "cell_rank (Number x) = (1, x, [])"
| "cell_rank (Text s) = (2, 0, s)"

lemma cell_rank_inject: "cell_rank x = cell_rank y \<Longrightarrow> x = y"
  by (cases x; cases y) simp_all

instantiation cell :: linorder
begin

definition less_eq_cell :: "cell \<Rightarrow> cell \<Rightarrow> bool" where
  "less_eq_cell x y = (cell_rank x \<le> cell_rank y)"

definition less_cell :: "cell \<Rightarrow> cell \<Rightarrow> bool" where
  "less_cell x y = (cell_rank x < cell_rank y)"

instance
proof
  fix x y z :: cell
  show "(x < y) = (x \<le> y \<and> \<not> y \<le> x)"
    unfolding less_eq_cell_def less_cell_def by (rule less_le_not_le)
  show "x \<le> x"
    unfolding less_eq_cell_def by (rule order_refl)
  show "x \<le> y \<Longrightarrow> y \<le> z \<Longrightarrow> x \<le> z"
    unfolding less_eq_cell_def by (rule order_trans)
  show "x \<le> y \<Longrightarrow> y \<le> x \<Longrightarrow> x = y"
    unfolding less_eq_cell_def by (rule cell_rank_inject) (rule antisym)
  show "x \<le> y \<or> y \<le> x"
    unfolding less_eq_cell_def by (rule linear)
qed

end

subsection \<open>Frames of generating units\<close>

text \<open>
  The columns of \<^verbatim>\<open>gen_relevant_data\<close> that are reduced by \<^verbatim>\<open>max\<close>.  (For the last
  year seven more columns are carried along, reduced by \<^verbatim>\<open>max\<close> as well; the
  aggregation below is written for any type of columns.)
\<close>

datatype column =
    Plant_Code | Plant_Name | Status | Prime_Mover | Energy_Source | Energy_Source_2
  | Energy_Source_3 | County | State | Nerc_Region | Operating_Year
  | Planned_Retirement_Year | Generator_Id | Unit_Code | Operational_Status

text \<open>
  A row: its cells in the columns reduced by \<^verbatim>\<open>max\<close>, and its cell in the one column
  of \<^verbatim>\<open>gen_data_to_be_summed\<close>, \<^verbatim>\<open>Nameplate Capacity (MW)\<close>, a number or NaN.  A
  frame is the list of its rows, each with its index label.
\<close>

record 'c row =
  cells :: "'c \<Rightarrow> cell"
  nameplate_capacity :: "real option"

type_synonym 'c frame = "(nat \<times> 'c row) list"

text \<open>A frame with a fresh index, as \<^verbatim>\<open>pd.merge\<close>, \<^verbatim>\<open>read_excel\<close> and \<^verbatim>\<open>reset_index\<close> give it.\<close>

definition reset_index :: "'c row list \<Rightarrow> 'c frame" where
  "reset_index rows = zip [0..<length rows] rows"

subsection \<open>Placeholders for empty key cells\<close>

text \<open>\<^verbatim>\<open>str(i)\<close> for an index label.\<close>

fun str :: "nat \<Rightarrow> string" where
  "str n = (if n < 10 then [''0123456789'' ! n]
            else str (n div 10) @ [''0123456789'' ! (n mod 10)])"

text \<open>
  \<^verbatim>\<open>generators[col].dtype == np.float64\<close>: the column holds no string.  (A column of
  whole numbers without a gap has another dtype, and nothing to fill.)
\<close>

definition is_float64 :: "'c \<Rightarrow> 'c frame \<Rightarrow> bool" where
  "is_float64 col df = list_all (\<lambda>(i, r). case cells r col of Text s \<Rightarrow> False | _ \<Rightarrow> True) df"

text \<open>
  The dictionary \<^verbatim>\<open>{i:10000000+i for i in generators.index}\<close>, or
  \<^verbatim>\<open>{i:'None'+str(i) for i in generators.index}\<close>, at the label \<open>i\<close>.
\<close>

definition placeholder :: "'c \<Rightarrow> 'c frame \<Rightarrow> nat \<Rightarrow> cell" where
  "placeholder col df i =
     (if is_float64 col df then Number (10000000 + real i) else Text (''None'' @ str i))"

text \<open>
  \<^verbatim>\<open>generators[col].fillna({...}, inplace=True)\<close>: a missing cell in the row labelled
  \<open>i\<close> gets the value the dictionary holds for \<open>i\<close>.
\<close>

definition fillna_unique :: "'c \<Rightarrow> 'c frame \<Rightarrow> 'c frame" where
  "fillna_unique col df =
     map (\<lambda>(i, r).
            (i, if cells r col = NA then r\<lparr>cells := (cells r)(col := placeholder col df i)\<rparr>
                else r)) df"

subsection \<open>Grouping and reduction\<close>

definition group_key :: "'c list \<Rightarrow> 'c row \<Rightarrow> cell list" where
  "group_key agg_list r = map (cells r) agg_list"

text \<open>\<^verbatim>\<open>'max'\<close> of a group in one column: missing cells are skipped.\<close>

definition agg_max :: "cell list \<Rightarrow> cell" where
  "agg_max xs = (if filter (\<lambda>x. x \<noteq> NA) xs = [] then NA else Max (set (filter (\<lambda>x. x \<noteq> NA) xs)))"

text \<open>\<^verbatim>\<open>sum\<close> of a group: NaN is skipped, and the sum of nothing is 0.\<close>

definition agg_sum :: "real option list \<Rightarrow> real option" where
  "agg_sum xs = Some (sum_list (List.map_filter (\<lambda>x. x) xs))"

definition agg :: "'c row list \<Rightarrow> 'c row" where
  "agg g =
     \<lparr>cells = (\<lambda>c. agg_max (map (\<lambda>r. cells r c) g)),
      nameplate_capacity = agg_sum (map nameplate_capacity g)\<rparr>"

text \<open>
  \<^verbatim>\<open>generators.groupby(agg_list)\<close> and \<^verbatim>\<open>gb.agg\<close>: rows with a missing key cell
  belong to no group; the groups come in the order of their keys.
\<close>

definition groupby_agg :: "'c list \<Rightarrow> 'c frame \<Rightarrow> 'c row list" where
  "groupby_agg agg_list df =
     (let rows = filter (\<lambda>r. NA \<notin> set (group_key agg_list r)) (map snd df)
      in map (\<lambda>k. agg (filter (\<lambda>r. group_key agg_list r = k) rows))
           (sort (remdups (map (group_key agg_list) rows))))"

text \<open>One round of the loop over \<^verbatim>\<open>gen_aggregation_lists\<close>, and the loop.\<close>

definition aggregate :: "'c list \<Rightarrow> 'c frame \<Rightarrow> 'c frame" where
  "aggregate agg_list df = reset_index (groupby_agg agg_list (fold fillna_unique agg_list df))"

definition aggregate_all :: "'c list list \<Rightarrow> 'c frame \<Rightarrow> 'c frame" where
  "aggregate_all aggregation_lists df = fold aggregate aggregation_lists df"

subsection \<open>The frame that is aggregated\<close>

definition gen_aggregation_lists :: "column list list" where
  "gen_aggregation_lists =
     [[Plant_Code, Unit_Code], [Plant_Code, Prime_Mover, Energy_Source, Operating_Year]]"

definition accepted_status_codes :: "string list" where
  "accepted_status_codes =
     [''OP'', ''SB'', ''CO'', ''SC'', ''OA'', ''OZ'', ''TS'', ''L'', ''T'', ''U'', ''V'']"

text \<open>
  \<^verbatim>\<open>generators = pd.merge(existing_generators, plants, ...)\<close> has a fresh index;
  \<^verbatim>\<open>generators.append(proposed_generators)\<close> keeps the labels of both frames.
\<close>

definition append_frames :: "'c frame \<Rightarrow> 'c frame \<Rightarrow> 'c frame" where
  "append_frames df other = df @ other"

definition filter_status :: "column frame \<Rightarrow> column frame" where
  "filter_status df =
     filter (\<lambda>(i, r). cells r Status \<in> set (map Text accepted_status_codes)) df"

definition combined_cycle :: "column frame \<Rightarrow> column frame" where
  "combined_cycle df =
     map (\<lambda>(i, r). (i, if cells r Prime_Mover \<in> {Text ''CA'', Text ''CT'', Text ''CS''}
                        then r\<lparr>cells := (cells r)(Prime_Mover := Text ''CC'')\<rparr> else r)) df"

text \<open>
  The part of \<^verbatim>\<open>parse_eia860_data\<close> from the merge to the end of the aggregation, for
  the existing generators as merged with their plants and the proposed generators as
  read.
\<close>

definition parse_eia860_data :: "column row list \<Rightarrow> column row list \<Rightarrow> column frame" where
  "parse_eia860_data existing_generators proposed_generators =
     aggregate_all gen_aggregation_lists
       (combined_cycle (filter_status
          (append_frames (reset_index existing_generators) (reset_index proposed_generators))))"

text \<open>
  What a frame looks like after \<^verbatim>\<open>groupby\<close> and \<^verbatim>\<open>agg\<close> on \<open>K\<close> (a property for
  the theorems): the keys of its rows are in ascending order and pairwise distinct, no
  key cell is missing, and every summed capacity is a number.
\<close>

definition aggregated :: "'c list \<Rightarrow> 'c row list \<Rightarrow> bool" where
  "aggregated K rows \<longleftrightarrow>
     sorted (map (group_key K) rows) \<and> distinct (map (group_key K) rows) \<and>
     (\<forall>r\<in>set rows. NA \<notin> set (group_key K r) \<and> nameplate_capacity r \<noteq> None)"

text \<open>
  The same with the order left free: the keys on \<open>K\<close> are pairwise distinct, no key cell
  is missing, and every capacity is a number.
\<close>

definition one_row_per_key :: "'c list \<Rightarrow> 'c row list \<Rightarrow> bool" where
  "one_row_per_key K rows \<longleftrightarrow>
     distinct (map (group_key K) rows) \<and>
     (\<forall>r\<in>set rows. NA \<notin> set (group_key K r) \<and> nameplate_capacity r \<noteq> None)"

section \<open>\<^verbatim>\<open>scrape.py\<close>: \<^verbatim>\<open>parse_eia923_data\<close>\<close>

text \<open>
  A row of \<^verbatim>\<open>heat_rate_outputs\<close> as it stands after the merge with
  \<^verbatim>\<open>total_fuel_consumption\<close>: for each month 1 to 12 the fuel consumed for electricity
  (MMBTU), the net generation (MWh), and the fuel consumed by all fuels of the same plant
  and prime mover.
\<close>

record heat_rate_output = fuel_unit +
  plant_code :: int
  elec_mmbtu :: "nat \<Rightarrow> real option"
  netgen :: "nat \<Rightarrow> real option"
  total_fuel_consumption :: "nat \<Rightarrow> real option"

definition months :: "nat list" where
  "months = [1..<13]"

text \<open>\<^verbatim>\<open>sum(axis=1)\<close> over the twelve monthly columns: NaN is skipped.\<close>

definition year_sum :: "(nat \<Rightarrow> real option) \<Rightarrow> real" where
  "year_sum col = sum_list (List.map_filter col months)"

text \<open>\<^verbatim>\<open>Series.div\<close>: division by zero gives an infinity, or NaN for 0/0.\<close>

definition float_div :: "real \<Rightarrow> real \<Rightarrow> pyfloat" where
  "float_div a b =
     (if b = 0 then (if a > 0 then PInf else if a < 0 then NInf else NaN) else Fin (a / b))"

definition div_cells :: "real option \<Rightarrow> real option \<Rightarrow> pyfloat" where
  "div_cells x y = (case (x, y) of (Some a, Some b) \<Rightarrow> float_div a b | _ \<Rightarrow> NaN)"

text \<open>Python's \<^verbatim>\<open><=\<close> on floats.\<close>

definition float_le :: "pyfloat \<Rightarrow> pyfloat \<Rightarrow> bool" where
  "float_le x y = (x \<noteq> NaN \<and> y \<noteq> NaN \<and> (x = y \<or> float_less x y))"

definition fraction_of_yearly_fuel_use :: "heat_rate_output \<Rightarrow> pyfloat" where
  "fraction_of_yearly_fuel_use r =
     float_div (year_sum (elec_mmbtu r)) (year_sum (total_fuel_consumption r))"

definition heat_rate_month :: "heat_rate_output \<Rightarrow> nat \<Rightarrow> pyfloat" where
  "heat_rate_month r month = div_cells (elec_mmbtu r month) (netgen r month)"

definition heat_rates :: "heat_rate_output \<Rightarrow> pyfloat list" where
  "heat_rates r = map (heat_rate_month r) months"

subsection \<open>Records of consistently negative heat rates\<close>

definition negative_filter :: "heat_rate_output \<Rightarrow> bool" where
  "negative_filter r = list_all (\<lambda>h. float_le h (Fin 0)) (heat_rates r)"

text \<open>
  The frame comes out of \<^verbatim>\<open>pd.merge\<close> with the index labels 0, 1, 2, ...; the boolean
  selection \<^verbatim>\<open>heat_rate_outputs[~negative_filter]\<close> keeps the label of every row it
  keeps.
\<close>

definition drop_negative :: "heat_rate_output list \<Rightarrow> (nat \<times> heat_rate_output) list" where
  "drop_negative rows =
     filter (\<lambda>(label, r). \<not> negative_filter r) (zip [0..<length rows] rows)"

subsection \<open>The second best heat rate\<close>

text \<open>
  \<^verbatim>\<open>heat_rate_outputs.replace([0,float('inf')],float('nan'))[heat_rate_outputs>0]\<close>:
  the cell of the frame with 0 and \<open>+inf\<close> replaced, where the cell of the frame itself
  is positive, NaN elsewhere.
\<close>

definition replace_zero_inf :: "pyfloat \<Rightarrow> pyfloat" where
  "replace_zero_inf h = (if h = Fin 0 \<or> h = PInf then NaN else h)"

definition where_positive :: "pyfloat \<Rightarrow> pyfloat" where
  "where_positive h = (if float_less (Fin 0) h then replace_zero_inf h else NaN)"

text \<open>\<^verbatim>\<open>np.sort\<close> along a row: ascending, NaN last.\<close>

fun sort_rank :: "pyfloat \<Rightarrow> nat \<times> real" where
  "sort_rank NInf = (0, 0)"
| "sort_rank (Fin x) = (1, x)"
| "sort_rank PInf = (2, 0)"
| "sort_rank NaN = (3, 0)"

definition np_sort :: "pyfloat list \<Rightarrow> pyfloat list" where
  "np_sort xs = sort_key sort_rank xs"

text \<open>Column 1 of the sorted row, \<^verbatim>\<open>.iloc[:,1]\<close>; a row has twelve columns.\<close>

definition second_best :: "heat_rate_output \<Rightarrow> pyfloat" where
  "second_best r = np_sort (map where_positive (heat_rates r)) ! 1"

text \<open>
  The ratios of a row that are finite and positive, in ascending order (a view of the
  row for the theorems; the code does not compute it).
\<close>

definition ranked :: "heat_rate_output \<Rightarrow> real list" where
  "ranked r =
     sort (List.map_filter (\<lambda>h. case h of Fin x \<Rightarrow> if 0 < x then Some x else None | _ \<Rightarrow> None)
             (heat_rates r))"

text \<open>
  The assignment \<^verbatim>\<open>heat_rate_outputs.loc[:,'Best Heat Rate'] = pd.DataFrame(...).iloc[:,1]\<close>.
  The right-hand side is built from a bare array, so it is a series labelled 0, 1, 2, ...
  by position; pandas aligns a series on the index labels of the frame it is assigned
  to: the row labelled \<open>l\<close> gets the entry labelled \<open>l\<close>, and NaN if there is none.
\<close>

definition best_heat_rate_column ::
  "(nat \<times> heat_rate_output) list \<Rightarrow> (nat \<times> heat_rate_output \<times> pyfloat) list" where
  "best_heat_rate_column kept =
     (let series = map (\<lambda>(label, r). second_best r) kept
      in map (\<lambda>(label, r). (label, r, if label < length series then series ! label else NaN)) kept)"

definition heat_rate_outputs_wide ::
  "heat_rate_output list \<Rightarrow> (nat \<times> heat_rate_output \<times> pyfloat) list" where
  "heat_rate_outputs_wide rows = best_heat_rate_column (drop_negative rows)"

subsection \<open>Plants that present multiple fuels\<close>

text \<open>
  \<^verbatim>\<open>fuel_based_gen_projects\<close> is read back from the file that \<^verbatim>\<open>parse_eia860_data\<close>
  wrote, with \<^verbatim>\<open>EIA Plant Code\<close> renamed to \<^verbatim>\<open>Plant Code\<close>, and its index is reset:
  its rows are labelled 0, 1, 2, ... and its columns are these (the seven more of the
  last year are no prime-mover codes either).
\<close>

definition fuel_based_gen_projects_columns :: "string list" where
  "fuel_based_gen_projects_columns =
     [''Plant Code'', ''Plant Name'', ''Status'', ''Nameplate Capacity (MW)'',
      ''Prime Mover'', ''Energy Source'', ''Energy Source 2'', ''Energy Source 3'',
      ''County'', ''State'', ''Nerc Region'', ''Operating Year'',
      ''Planned Retirement Year'', ''Operational Status'',
      ''Time From Cold Shutdown To Full Load'', ''Latitude'', ''Longitude'',
      ''Balancing Authority Name'', ''Grid Voltage (kV)'', ''Carbon Capture Technology'',
      ''Cogen'']"

definition fuel_prime_movers :: "string list" where
  "fuel_prime_movers = [''ST'', ''GT'', ''IC'', ''CA'', ''CT'', ''CS'', ''CC'']"

text \<open>
  \<^verbatim>\<open>fuel_based_gen_projects.loc[a, b]\<close> on that frame: the cell in the row labelled
  \<open>a\<close> and the column named \<open>b\<close>; KeyError if either does not exist.
\<close>

definition loc :: "(string \<Rightarrow> cell) list \<Rightarrow> int \<Rightarrow> string \<Rightarrow> py_error + cell" where
  "loc fuel_based_gen_projects a b =
     (if b \<notin> set fuel_based_gen_projects_columns \<or> a < 0 \<or>
         int (length fuel_based_gen_projects) \<le> a
      then Inl KeyError
      else Inr ((fuel_based_gen_projects ! nat a) b))"

text \<open>\<^verbatim>\<open>len\<close> of a cell: defined on strings only.\<close>

definition len :: "cell \<Rightarrow> py_error + nat" where
  "len c = (case c of Text s \<Rightarrow> Inr (length s) | _ \<Rightarrow> Inl TypeError)"

text \<open>
  The body of the loop that fills \<^verbatim>\<open>indices_to_drop\<close>: whether the row is to be
  dropped.  A KeyError is caught and the row is kept; any other error ends the run.
\<close>

definition to_drop :: "(string \<Rightarrow> cell) list \<Rightarrow> heat_rate_output \<Rightarrow> py_error + bool" where
  "to_drop fuel_based_gen_projects r =
     (case loc fuel_based_gen_projects (plant_code r) (prime_mover r) of
        Inl KeyError \<Rightarrow> Inr False
      | Inl e \<Rightarrow> Inl e
      | Inr c \<Rightarrow> (case len c of Inl e \<Rightarrow> Inl e | Inr n \<Rightarrow> Inr (n > 1)))"

fun drop_indices ::
  "(string \<Rightarrow> cell) list \<Rightarrow> (nat \<times> heat_rate_output \<times> pyfloat) list
   \<Rightarrow> py_error + (nat \<times> heat_rate_output \<times> pyfloat) list" where
  "drop_indices projects [] = Inr []"
| "drop_indices projects ((label, r, best) # rest) =
     (case to_drop projects r of
        Inl e \<Rightarrow> Inl e
      | Inr d \<Rightarrow>
          (case drop_indices projects rest of
             Inl e \<Rightarrow> Inl e
           | Inr kept \<Rightarrow> Inr (if d then kept else (label, r, best) # kept)))"

definition multi_fuel_heat_rate_outputs ::
  "(string \<Rightarrow> cell) list \<Rightarrow> (nat \<times> heat_rate_output \<times> pyfloat) list
   \<Rightarrow> py_error + (nat \<times> heat_rate_output \<times> pyfloat) list" where
  "multi_fuel_heat_rate_outputs projects outputs =
     drop_indices projects
       (filter (\<lambda>(label, r, best).
                  float_le (Fin 0.05) (fraction_of_yearly_fuel_use r) \<and>
                  float_le (fraction_of_yearly_fuel_use r) (Fin 0.95)) outputs)"

text \<open>
  The rule as the specification words it: the share lies strictly between 5 and 95 per
  cent; and the rows of the project frame that belong to a plant and prime mover.
\<close>

definition spec_multi_fuel :: "real \<Rightarrow> bool" where
  "spec_multi_fuel share = (0.05 < share \<and> share < 0.95)"

definition rows_of_key :: "(string \<Rightarrow> cell) list \<Rightarrow> int \<Rightarrow> string \<Rightarrow> (string \<Rightarrow> cell) list" where
  "rows_of_key projects plant pm =
     filter (\<lambda>row. row ''Plant Code'' = Number (real_of_int plant) \<and> row ''Prime Mover'' = Text pm)
       projects"

text \<open>
  The best heat rate as the specification words it: the months with net generation of
  zero or less, or with a ratio that is not finite, are left out, and the second
  smallest of the remaining ratios is taken.
\<close>

definition spec_ranked :: "heat_rate_output \<Rightarrow> real list" where
  "spec_ranked r =
     sort (List.map_filter
       (\<lambda>month. case (netgen r month, heat_rate_month r month) of
                   (Some g, Fin h) \<Rightarrow> if g > 0 then Some h else None
                 | _ \<Rightarrow> None) months)"

definition spec_best_heat_rate :: "heat_rate_output \<Rightarrow> pyfloat" where
  "spec_best_heat_rate r = (if length (spec_ranked r) < 2 then NaN else Fin (spec_ranked r ! 1))"

section \<open>Example data\<close>

text \<open>Five gas turbines of vintages 2000 to 2008.\<close>

definition gas_turbines :: "real generator list" where
  "gas_turbines =
     [\<lparr>prime_mover = ''GT'', energy_source = ''Gas'', operating_year = 2000, best_heat_rate = 10\<rparr>,
      \<lparr>prime_mover = ''GT'', energy_source = ''Gas'', operating_year = 2003, best_heat_rate = 10\<rparr>,
      \<lparr>prime_mover = ''GT'', energy_source = ''Gas'', operating_year = 2004, best_heat_rate = 10\<rparr>,
      \<lparr>prime_mover = ''GT'', energy_source = ''Gas'', operating_year = 2006, best_heat_rate = 10\<rparr>,
      \<lparr>prime_mover = ''GT'', energy_source = ''Gas'', operating_year = 2008, best_heat_rate = 20\<rparr>]"

text \<open>A steam fleet whose only gas unit is 104 years younger than the year asked for.\<close>

definition far_peer :: "real generator list" where
  "far_peer =
     [\<lparr>prime_mover = ''ST'', energy_source = ''Gas'', operating_year = 2104, best_heat_rate = 10\<rparr>,
      \<lparr>prime_mover = ''ST'', energy_source = ''Coal'', operating_year = 2000, best_heat_rate = 20\<rparr>]"


text \<open>Two hundred gas turbines with one and the same heat rate.\<close>

definition equal_fleet :: "real generator list" where
  "equal_fleet = replicate 200
     \<lparr>prime_mover = ''GT'', energy_source = ''Gas'', operating_year = 2000, best_heat_rate = 10\<rparr>"

text \<open>
  As read from the data: 199 gas turbines with heat rate 7 and one coal plant with heat
  rate 9, all inside their bands.
\<close>

definition low_fleet :: "pyfloat generator list" where
  "low_fleet =
     replicate 199
       \<lparr>prime_mover = ''GT'', energy_source = ''Gas'', operating_year = 2000, best_heat_rate = Fin 7\<rparr> @
     [\<lparr>prime_mover = ''ST'', energy_source = ''Coal'', operating_year = 1980, best_heat_rate = Fin 9\<rparr>]"

text \<open>A coal plant with a valid heat rate, one below the band, and a turbine with none.\<close>

definition small_fleet :: "pyfloat generator list" where
  "small_fleet =
     [\<lparr>prime_mover = ''ST'', energy_source = ''Coal'', operating_year = 1980, best_heat_rate = Fin 10\<rparr>,
      \<lparr>prime_mover = ''ST'', energy_source = ''Coal'', operating_year = 1985, best_heat_rate = Fin 8\<rparr>,
      \<lparr>prime_mover = ''GT'', energy_source = ''Gas'', operating_year = 2000, best_heat_rate = NaN\<rparr>]"


text \<open>A 100 MW steam unit, and retirement records for it of 40, 100 and 140 MW.\<close>

definition unit_100 :: project where
  "unit_100 = \<lparr>index_cols = (3, ''ST'', ''CA'', ''Kern'', 1980), nameplate_capacity_mw = 100\<rparr>"

definition retired_of :: "real \<Rightarrow> retired_gen" where
  "retired_of mw = \<lparr>index_cols = (3, ''ST'', ''CA'', ''Kern'', 1980), retired_mw = mw\<rparr>"

text \<open>A plant whose twelve ratios are all negative (fuel 10, generation -1 in every month).\<close>

definition always_negative :: heat_rate_output where
  "always_negative =
     \<lparr>prime_mover = ''ST'', energy_source = ''NG'', plant_code = 1,
      elec_mmbtu = (\<lambda>month. Some 10), netgen = (\<lambda>month. Some (- 1)),
      total_fuel_consumption = (\<lambda>month. Some 10)\<rparr>"

text \<open>A plant with fuel data for January only: one ratio of 10, eleven missing.\<close>

definition one_month :: heat_rate_output where
  "one_month =
     \<lparr>prime_mover = ''ST'', energy_source = ''NG'', plant_code = 2,
      elec_mmbtu = (\<lambda>month. if month = 1 then Some 10 else None), netgen = (\<lambda>month. Some 1),
      total_fuel_consumption = (\<lambda>month. if month = 1 then Some 10 else None)\<rparr>"

text \<open>A plant with the ratios 9, 10, ..., 20 for January to December.\<close>

definition full_year :: heat_rate_output where
  "full_year =
     \<lparr>prime_mover = ''ST'', energy_source = ''NG'', plant_code = 3,
      elec_mmbtu = (\<lambda>month. Some (real month + 8)), netgen = (\<lambda>month. Some 1),
      total_fuel_consumption = (\<lambda>month. Some (real month + 8))\<rparr>"

text \<open>The same plant, but with no fuel burnt in January: the ratios 0, 10, 11, ..., 20.\<close>

definition idle_january :: heat_rate_output where
  "idle_january =
     \<lparr>prime_mover = ''ST'', energy_source = ''NG'', plant_code = 4,
      elec_mmbtu = (\<lambda>month. if month = 1 then Some 0 else Some (real month + 8)),
      netgen = (\<lambda>month. Some 1),
      total_fuel_consumption = (\<lambda>month. Some (real month + 8))\<rparr>"

text \<open>
  A fuel of a steam plant that accounts for \<open>pct\<close> of the 100 MMBTU its plant and prime
  mover burn in the year.
\<close>

definition fuel_share :: "real \<Rightarrow> heat_rate_output" where
  "fuel_share pct =
     \<lparr>prime_mover = ''ST'', energy_source = ''NG'', plant_code = 5,
      elec_mmbtu = (\<lambda>month. if month = 1 then Some pct else None), netgen = (\<lambda>month. Some 1),
      total_fuel_consumption = (\<lambda>month. if month = 1 then Some 100 else None)\<rparr>"

text \<open>
  The rows of the project frame for a steam plant with two units, one that burns gas and
  one that burns oil.
\<close>

definition two_fuel_units :: "(string \<Rightarrow> cell) list" where
  "two_fuel_units =
     [(\<lambda>c. NA)(''Plant Code'' := Number 5, ''Prime Mover'' := Text ''ST'',
        ''Energy Source'' := Text ''DFO'', ''Operational Status'' := Text ''Operable''),
      (\<lambda>c. NA)(''Plant Code'' := Number 5, ''Prime Mover'' := Text ''ST'',
        ''Energy Source'' := Text ''NG'', ''Operational Status'' := Text ''Operable'')]"

text \<open>
  An operable 50 MW gas turbine of 1990 and a 100 MW steam unit under construction at the
  same plant; neither has a unit code.
\<close>

definition existing_unit :: "column row" where
  "existing_unit =
     \<lparr>cells = (\<lambda>c. NA)(Plant_Code := Number 1, Status := Text ''OP'', Prime_Mover := Text ''GT'',
        Energy_Source := Text ''NG'', Operating_Year := Number 1990,
        Operational_Status := Text ''Operable''),
      nameplate_capacity = Some 50\<rparr>"

definition proposed_unit :: "column row" where
  "proposed_unit =
     \<lparr>cells = (\<lambda>c. NA)(Plant_Code := Number 1, Status := Text ''U'', Prime_Mover := Text ''ST'',
        Energy_Source := Text ''NG'', Operating_Year := Number 2020,
        Operational_Status := Text ''Proposed''),
      nameplate_capacity = Some 100\<rparr>"

section \<open>The peer-group heat-rate estimator\<close>

text \<open>
  What the loop of \<^verbatim>\<open>calculate_avg_heat_rate\<close> returns, from any starting window \<open>w\<close>:
  it exits after some number \<open>k\<close> of enlargements by two years, every window before the
  last held fewer than four units, and the last window either holds four or has reached
  103.
\<close>

lemma enlarge_window_returns:
  "\<exists>k. enlarge_window df pm es v w (similar_generators df pm es v w) =
          Some (w + 2 * int k, similar_generators df pm es v (w + 2 * int k)) \<and>
       (\<forall>j<k. length (similar_generators df pm es v (w + 2 * int j)) < 4) \<and>
       (k = 0 \<longrightarrow> 4 \<le> length (similar_generators df pm es v w)) \<and>
       (0 < k \<longrightarrow> w + 2 * int k < 105 \<or> k = 1) \<and>
       (0 < k \<longrightarrow> 103 \<le> w + 2 * int k \<or> 4 \<le> length (similar_generators df pm es v (w + 2 * int k)))"
proof (induction "nat (103 - w)" arbitrary: w rule: less_induct)
  case less
  let ?sim = "similar_generators df pm es v"
  show ?case
  proof (cases "length (?sim w) < 4")
    case False
    then have "enlarge_window df pm es v w (?sim w) = Some (w, ?sim w)"
      by (subst enlarge_window.simps) simp
    with False show ?thesis by (intro exI [of _ 0]) simp
  next
    case short: True
    show ?thesis
    proof (cases "w + 2 \<ge> 103")
      case True
      with short have "enlarge_window df pm es v w (?sim w) = Some (w + 2, ?sim (w + 2))"
        by (subst enlarge_window.simps) simp
      with short True show ?thesis by (intro exI [of _ 1]) simp
    next
      case False
      then have "nat (103 - (w + 2)) < nat (103 - w)" by simp
      from less [OF this] obtain k where
        k: "enlarge_window df pm es v (w + 2) (?sim (w + 2)) =
              Some (w + 2 + 2 * int k, ?sim (w + 2 + 2 * int k))"
          "\<forall>j<k. length (?sim (w + 2 + 2 * int j)) < 4"
          "k = 0 \<longrightarrow> 4 \<le> length (?sim (w + 2))"
          "0 < k \<longrightarrow> w + 2 + 2 * int k < 105 \<or> k = 1"
          "0 < k \<longrightarrow> 103 \<le> w + 2 + 2 * int k \<or> 4 \<le> length (?sim (w + 2 + 2 * int k))"
        by (elim exE conjE) (rule that, assumption+)
      have eq: "w + 2 + 2 * int k = w + 2 * int (Suc k)" by simp
      from short False have "enlarge_window df pm es v w (?sim w) =
          enlarge_window df pm es v (w + 2) (?sim (w + 2))"
        by (subst enlarge_window.simps) simp
      with k(1) have 1: "enlarge_window df pm es v w (?sim w) =
          Some (w + 2 * int (Suc k), ?sim (w + 2 * int (Suc k)))"
        by (simp only: eq)
      have 2: "\<forall>j<Suc k. length (?sim (w + 2 * int j)) < 4"
      proof (intro allI impI)
        fix j assume "j < Suc k"
        show "length (?sim (w + 2 * int j)) < 4"
        proof (cases j)
          case 0 with short show ?thesis by simp
        next
          case (Suc i)
          with \<open>j < Suc k\<close> have "i < k" by simp
          with k(2) have "length (?sim (w + 2 + 2 * int i)) < 4" by blast
          moreover have "w + 2 + 2 * int i = w + 2 * int j" using Suc by simp
          ultimately show ?thesis by simp
        qed
      qed
      have 3: "w + 2 * int (Suc k) < 105 \<or> Suc k = 1"
        using k(3,4) False by (cases k) auto
      have 4: "103 \<le> w + 2 * int (Suc k) \<or> 4 \<le> length (?sim (w + 2 * int (Suc k)))"
      proof (cases k)
        case 0
        with k(3) show ?thesis by simp
      next
        case (Suc n)
        then have "0 < k" by simp
        with k(5) show ?thesis unfolding eq by blast
      qed
      from 1 2 3 4 show ?thesis by (intro exI [of _ "Suc k"]) simp
    qed
  qed
qed

lemma similar_generators_mono:
  "w \<le> w' \<Longrightarrow> set (similar_generators df pm es v w) \<subseteq> set (similar_generators df pm es v w')"
  by (auto simp: similar_generators_def)

text \<open>
  Claim C1, as the code has it.  For a unit without a valid heat rate the substitute is
  the mean heat rate of the units with the same prime mover and energy source whose
  operating year lies within \<open>vintage - W\<close> and \<open>vintage + W\<close> inclusive.  \<open>W\<close> starts
  at 2 and grows by 2 (not by doubling) while fewer than four such units are found, up to
  \<open>W = 104\<close>, the first value that is at least 103.  If the last window is empty the result is
  the unweighted mean over all units of the same prime mover.
\<close>

theorem calculate_avg_heat_rate_window_search:
  "\<exists>k\<le>51.
     (\<forall>j<k. length (similar_generators df pm es v (2 + 2 * int j)) < 4) \<and>
     (4 \<le> length (similar_generators df pm es v (2 + 2 * int k)) \<or> k = 51) \<and>
     calculate_avg_heat_rate df pm es v 2 =
       Some (if similar_generators df pm es v (2 + 2 * int k) \<noteq> []
             then mean (map best_heat_rate (similar_generators df pm es v (2 + 2 * int k)))
             else technology_average df pm)"
proof -
  let ?sim = "similar_generators df pm es v"
  from enlarge_window_returns [of df pm es v 2] obtain k where
    ret: "enlarge_window df pm es v 2 (?sim 2) = Some (2 + 2 * int k, ?sim (2 + 2 * int k))"
    and short: "\<forall>j<k. length (?sim (2 + 2 * int j)) < 4"
    and zero: "k = 0 \<longrightarrow> 4 \<le> length (?sim 2)"
    and bound: "0 < k \<longrightarrow> 2 + 2 * int k < 105 \<or> k = 1"
    and stop: "0 < k \<longrightarrow> 103 \<le> 2 + 2 * int k \<or> 4 \<le> length (?sim (2 + 2 * int k))"
    by (elim exE conjE) (rule that, assumption+)
  from bound have k51: "k \<le> 51" by (cases "k = 0") auto
  have full: "4 \<le> length (?sim (2 + 2 * int k)) \<or> k = 51"
  proof (cases "k = 0")
    case True with zero show ?thesis by simp
  next
    case False
    with stop have "103 \<le> 2 + 2 * int k \<or> 4 \<le> length (?sim (2 + 2 * int k))" by simp
    with k51 show ?thesis by auto
  qed
  have "calculate_avg_heat_rate df pm es v 2 =
       Some (if ?sim (2 + 2 * int k) \<noteq> []
             then mean (map best_heat_rate (?sim (2 + 2 * int k)))
             else technology_average df pm)"
    by (simp add: calculate_avg_heat_rate_def ret)
  with k51 short full show ?thesis by blast
qed

text \<open>
  An instance: for vintage 2004 the window of 2 years holds three of the five gas
  turbines, the window of 4 years all five, whose mean is 12.
\<close>

theorem calculate_avg_heat_rate_window_search_witness:
  "calculate_avg_heat_rate gas_turbines ''GT'' ''Gas'' 2004 2 = Some (Fin 12)"
proof -
  let ?sim = "similar_generators gas_turbines ''GT'' ''Gas'' 2004"
  have s2: "length (?sim 2) = 3"
    by (simp add: similar_generators_def gas_turbines_def)
  have s4: "?sim 4 = gas_turbines"
    by (simp add: similar_generators_def gas_turbines_def)
  from calculate_avg_heat_rate_window_search [of gas_turbines "''GT''" "''Gas''" 2004]
  obtain k where short: "\<forall>j<k. length (?sim (2 + 2 * int j)) < 4"
    and full: "4 \<le> length (?sim (2 + 2 * int k)) \<or> k = 51"
    and res: "calculate_avg_heat_rate gas_turbines ''GT'' ''Gas'' 2004 2 =
       Some (if ?sim (2 + 2 * int k) \<noteq> []
             then mean (map best_heat_rate (?sim (2 + 2 * int k)))
             else technology_average gas_turbines ''GT'')"
    by (elim exE conjE) (rule that, assumption+)
  have "\<not> 1 < k"
  proof
    assume "1 < k"
    with short have "length (?sim (2 + 2 * int 1)) < 4" by blast
    with s4 show False by (simp add: gas_turbines_def)
  qed
  moreover have "k \<noteq> 0"
  proof
    assume "k = 0"
    with full s2 show False by simp
  qed
  ultimately have "k = 1" by simp
  with res s4 show ?thesis by (simp add: mean_def gas_turbines_def)
qed

text \<open>
  The claim as worded (the window is doubled) fails: for vintage 2000 the code stops at
  \<open>W = 6\<close>, where four turbines are found, and returns their mean 10; a doubling search
  goes from 4 to 8, finds all five and returns 12.
\<close>

theorem window_is_not_doubled:
  "calculate_avg_heat_rate gas_turbines ''GT'' ''Gas'' 2000 2 = Some (Fin 10) \<and>
   spec_avg_heat_rate gas_turbines ''GT'' ''Gas'' 2000 = Fin 12"
  by (simp add: calculate_avg_heat_rate_def enlarge_window.simps similar_generators_def
      gas_turbines_def spec_avg_heat_rate_def mean_def technology_average_def)

text \<open>
  Claim C2, as the code has it.  From every starting window the loop exits, with a
  window no smaller than the one it started from and a selection that contains the first
  one, so \<^verbatim>\<open>calculate_avg_heat_rate\<close> returns for every unit; and a unit with no unit of
  its prime mover and energy source within 104 years gets the average of its prime mover.
\<close>

theorem peer_search_terminates:
  "(\<exists>w' similar'.
      enlarge_window df pm es v w (similar_generators df pm es v w) = Some (w', similar') \<and>
      w \<le> w' \<and> set (similar_generators df pm es v w) \<subseteq> set similar') \<and>
   (\<exists>r. calculate_avg_heat_rate df pm es v w = Some r) \<and>
   (similar_generators df pm es v 104 = [] \<longrightarrow>
      calculate_avg_heat_rate df pm es v 2 = Some (technology_average df pm))"
proof (intro conjI impI)
  let ?sim = "similar_generators df pm es v"
  from enlarge_window_returns [of df pm es v w] obtain k where
    ret: "enlarge_window df pm es v w (?sim w) = Some (w + 2 * int k, ?sim (w + 2 * int k))"
    by blast
  have "w \<le> w + 2 * int k" by simp
  moreover from this have "set (?sim w) \<subseteq> set (?sim (w + 2 * int k))"
    by (rule similar_generators_mono)
  ultimately show "\<exists>w' similar'. enlarge_window df pm es v w (?sim w) = Some (w', similar') \<and>
      w \<le> w' \<and> set (?sim w) \<subseteq> set similar'"
    using ret by blast
  from ret show "\<exists>r. calculate_avg_heat_rate df pm es v w = Some r"
    by (simp add: calculate_avg_heat_rate_def)
next
  let ?sim = "similar_generators df pm es v"
  assume none: "?sim 104 = []"
  from enlarge_window_returns [of df pm es v 2] obtain k where
    ret: "enlarge_window df pm es v 2 (?sim 2) = Some (2 + 2 * int k, ?sim (2 + 2 * int k))"
    and bound: "0 < k \<longrightarrow> 2 + 2 * int k < 105 \<or> k = 1"
    by blast
  from bound have "2 + 2 * int k \<le> 104" by (cases "k = 0") auto
  then have "set (?sim (2 + 2 * int k)) \<subseteq> set (?sim 104)"
    by (rule similar_generators_mono)
  with none have "?sim (2 + 2 * int k) = []" by simp
  with ret show "calculate_avg_heat_rate df pm es v 2 = Some (technology_average df pm)"
    by (simp add: calculate_avg_heat_rate_def)
qed

text \<open>An instance: a lone coal unit is asked for a gas estimate.\<close>

theorem peer_search_terminates_witness:
  "similar_generators (tl far_peer) ''ST'' ''Gas'' 2000 104 = [] \<and>
   calculate_avg_heat_rate (tl far_peer) ''ST'' ''Gas'' 2000 2 = Some (Fin 20)"
proof -
  have none: "similar_generators (tl far_peer) ''ST'' ''Gas'' 2000 104 = []"
    by (simp add: similar_generators_def far_peer_def)
  with peer_search_terminates [of "tl far_peer" "''ST''" "''Gas''" 2000 2]
  have "calculate_avg_heat_rate (tl far_peer) ''ST'' ''Gas'' 2000 2 =
      Some (technology_average (tl far_peer) ''ST'')"
    by blast
  with none show ?thesis by (simp add: technology_average_def mean_def far_peer_def)
qed

text \<open>
  The claim as worded (no peer within every window smaller than 103 years) fails: the
  last window the loop tries is 104 years, so a peer 104 years away is found there and
  its heat rate 10 is returned, not the steam-turbine average 15.
\<close>

theorem last_window_is_104:
  "similar_generators far_peer ''ST'' ''Gas'' 2000 102 = [] \<and>
   calculate_avg_heat_rate far_peer ''ST'' ''Gas'' 2000 2 = Some (Fin 10) \<and>
   technology_average far_peer ''ST'' = Fin 15"
  by (simp add: calculate_avg_heat_rate_def enlarge_window.simps similar_generators_def
      far_peer_def mean_def technology_average_def)

section \<open>The outlier clamp\<close>

text \<open>The loop over \<^verbatim>\<open>range(n_outliers)\<close>, row by row.\<close>

lemma clamp_round_length [simp]: "length (clamp_round lo hi i df) = length df"
  by (simp add: clamp_round_def Let_def)

lemma fold_clamp_round_length [simp]:
  "length (fold (clamp_round lo hi) [0..<k] s) = length s"
  by (induction k) simp_all

lemma fold_clamp_round_nth:
  "2 * k \<le> length s \<Longrightarrow> j < length s \<Longrightarrow>
   fold (clamp_round lo hi) [0..<k] s ! j =
     (if j < k then (s ! j)\<lparr>best_heat_rate := lo\<rparr>
      else if length s - k \<le> j then (s ! j)\<lparr>best_heat_rate := hi\<rparr>
      else s ! j)"
proof (induction k arbitrary: j)
  case 0
  then show ?case by simp
next
  case (Suc k)
  let ?t = "fold (clamp_round lo hi) [0..<k] s"
  let ?N = "length s"
  from Suc.prems have k: "2 * k \<le> ?N" "k < ?N" "?N - 1 - k < ?N" "k \<noteq> ?N - 1 - k"
    "\<not> ?N - 1 - k < k" "\<not> ?N - k \<le> ?N - 1 - k" "\<not> ?N - k \<le> k"
    by auto
  have tk: "?t ! k = s ! k" using Suc.IH [OF k(1) k(2)] k by simp
  have tj: "?t ! (?N - 1 - k) = s ! (?N - 1 - k)" using Suc.IH [OF k(1) k(3)] k by simp
  have "clamp_round lo hi k ?t =
      (?t[k := (s ! k)\<lparr>best_heat_rate := lo\<rparr>])
         [?N - Suc k := (s ! (?N - Suc k))\<lparr>best_heat_rate := hi\<rparr>]"
    using k tk tj by (simp add: clamp_round_def Let_def)
  then have step: "fold (clamp_round lo hi) [0..<Suc k] s =
      (?t[k := (s ! k)\<lparr>best_heat_rate := lo\<rparr>])
         [?N - Suc k := (s ! (?N - Suc k))\<lparr>best_heat_rate := hi\<rparr>]"
    by simp
  show ?case
  proof (cases "j = ?N - 1 - k")
    case True
    with Suc.prems k show ?thesis unfolding step by simp
  next
    case other: False
    show ?thesis
    proof (cases "j = k")
      case True
      with Suc.prems k other show ?thesis unfolding step by simp
    next
      case False
      with other Suc.prems have "fold (clamp_round lo hi) [0..<Suc k] s ! j = ?t ! j"
        unfolding step by simp
      also have "\<dots> = (if j < k then (s ! j)\<lparr>best_heat_rate := lo\<rparr>
          else if ?N - k \<le> j then (s ! j)\<lparr>best_heat_rate := hi\<rparr> else s ! j)"
        using Suc.IH [OF k(1)] Suc.prems by simp
      also have "\<dots> = (if j < Suc k then (s ! j)\<lparr>best_heat_rate := lo\<rparr>
          else if ?N - Suc k \<le> j then (s ! j)\<lparr>best_heat_rate := hi\<rparr> else s ! j)"
        using False other Suc.prems by auto
      finally show ?thesis .
    qed
  qed
qed

lemma n_outliers_bound: "w_hr \<noteq> [] \<Longrightarrow> n_outliers w_hr \<le> length w_hr - 1 - n_outliers w_hr"
  unfolding n_outliers_def by (cases w_hr) auto

lemma n_outliers_twice: "2 * n_outliers w_hr \<le> length w_hr"
  unfolding n_outliers_def by simp

lemma sorted_sort_values: "sorted (map best_heat_rate (sort_values w_hr))"
  by (simp add: sort_values_def)

lemma length_sort_values [simp]: "length (sort_values w_hr) = length w_hr"
  by (simp add: sort_values_def)

lemma set_sort_values [simp]: "set (sort_values w_hr) = set w_hr"
  by (simp add: sort_values_def)

lemma sort_values_nth_mono:
  "i \<le> j \<Longrightarrow> j < length w_hr \<Longrightarrow>
   best_heat_rate (sort_values w_hr ! i) \<le> best_heat_rate (sort_values w_hr ! j)"
  using sorted_nth_mono [OF sorted_sort_values, of i j w_hr] by simp

lemma min_hr_le_max_hr: "w_hr \<noteq> [] \<Longrightarrow> min_hr w_hr \<le> max_hr w_hr"
  unfolding min_hr_def max_hr_def
  by (rule sort_values_nth_mono [OF n_outliers_bound]) (cases w_hr, auto)

lemma clamp_outliers_nth:
  assumes "w_hr \<noteq> []"
  shows "\<exists>out. clamp_outliers w_hr = Inr out \<and> length out = length w_hr \<and>
    (\<forall>j<length w_hr. out ! j =
       (if j < n_outliers w_hr then (sort_values w_hr ! j)\<lparr>best_heat_rate := min_hr w_hr\<rparr>
        else if length w_hr - n_outliers w_hr \<le> j
             then (sort_values w_hr ! j)\<lparr>best_heat_rate := max_hr w_hr\<rparr>
        else sort_values w_hr ! j))"
  using assms n_outliers_twice [of w_hr]
  by (simp add: clamp_outliers_def fold_clamp_round_nth)

lemma edge_rows_card:
  assumes "2 * n \<le> N"
  shows "card {j. j < N \<and> (j < n \<or> N - n \<le> j)} = 2 * (n::nat)"
proof -
  have "{j. j < N \<and> (j < n \<or> N - n \<le> j)} = {0..<n} \<union> {N - n..<N}"
    using assms by auto
  moreover have "{0..<n} \<inter> {N - n..<N} = {}" using assms by auto
  ultimately have "card {j. j < N \<and> (j < n \<or> N - n \<le> j)} = card {0..<n} + card {N - n..<N}"
    by (simp add: card_Un_disjoint)
  also have "\<dots> = 2 * n" using assms by simp
  finally show ?thesis .
qed

lemma distinct_sort_values:
  "distinct (map best_heat_rate w_hr) \<Longrightarrow> distinct (map best_heat_rate (sort_values w_hr))"
  by (simp add: sort_values_def distinct_map)

lemma sort_values_sorted_id: "sorted (map best_heat_rate xs) \<Longrightarrow> sort_values xs = xs"
  by (simp add: sort_values_def sort_key_id_if_sorted)

lemma list_update_replicate_same [simp]: "(replicate n x)[i := x] = replicate n x"
  by (induction n arbitrary: i) (auto split: nat.splits)

text \<open>
  Claim C5, as the code has it.  On a frame of \<open>N \<ge> 1\<close> measured heat rates (on an
  empty one the code raises IndexError) the clamp sorts the rows by heat rate and
  overwrites the first \<open>n = N div 200\<close> rows with the heat rate of row \<open>n\<close> and the last
  \<open>n\<close> rows with the heat rate of row \<open>N - 1 - n\<close>; no row is removed, afterwards no
  value lies below the lower or above the upper boundary value, \<open>2 n\<close> rows are
  overwritten, at most \<open>2 n\<close> rows change their value, and exactly \<open>2 n\<close> do when the
  heat rates are pairwise distinct.
\<close>

theorem clamp_outliers_winsorizes:
  assumes "w_hr \<noteq> []"
  shows "\<exists>out. clamp_outliers w_hr = Inr out \<and> length out = length w_hr \<and>
    (\<forall>j<length w_hr. out ! j =
       (if j < n_outliers w_hr then (sort_values w_hr ! j)\<lparr>best_heat_rate := min_hr w_hr\<rparr>
        else if length w_hr - n_outliers w_hr \<le> j
             then (sort_values w_hr ! j)\<lparr>best_heat_rate := max_hr w_hr\<rparr>
        else sort_values w_hr ! j)) \<and>
    length (filter (\<lambda>g. best_heat_rate g < min_hr w_hr) out) = 0 \<and>
    length (filter (\<lambda>g. max_hr w_hr < best_heat_rate g) out) = 0 \<and>
    card {j. j < length w_hr \<and> (j < n_outliers w_hr \<or> length w_hr - n_outliers w_hr \<le> j)} =
      2 * n_outliers w_hr \<and>
    card {j. j < length w_hr \<and> out ! j \<noteq> sort_values w_hr ! j} \<le> 2 * n_outliers w_hr \<and>
    (distinct (map best_heat_rate w_hr) \<longrightarrow>
       card {j. j < length w_hr \<and> out ! j \<noteq> sort_values w_hr ! j} = 2 * n_outliers w_hr)"
proof -
  let ?N = "length w_hr" and ?n = "n_outliers w_hr" and ?s = "sort_values w_hr"
  let ?edge = "{j. j < ?N \<and> (j < ?n \<or> ?N - ?n \<le> j)}"
  from clamp_outliers_nth [OF assms] obtain out where
    ret: "clamp_outliers w_hr = Inr out" and len: "length out = ?N"
    and nth: "\<forall>j<?N. out ! j =
       (if j < ?n then (?s ! j)\<lparr>best_heat_rate := min_hr w_hr\<rparr>
        else if ?N - ?n \<le> j then (?s ! j)\<lparr>best_heat_rate := max_hr w_hr\<rparr>
        else ?s ! j)"
    by blast
  let ?changed = "{j. j < ?N \<and> out ! j \<noteq> ?s ! j}"
  have twice: "2 * ?n \<le> ?N" by (rule n_outliers_twice)
  have mid: "?n \<le> ?N - 1 - ?n" by (rule n_outliers_bound [OF assms])
  have N: "0 < ?N" using assms by simp
  have range: "min_hr w_hr \<le> best_heat_rate (out ! j) \<and> best_heat_rate (out ! j) \<le> max_hr w_hr"
    if j: "j < ?N" for j
  proof -
    consider "j < ?n" | "\<not> j < ?n" "?N - ?n \<le> j" | "\<not> j < ?n" "\<not> ?N - ?n \<le> j" by blast
    then show ?thesis
    proof cases
      case 1
      with nth j min_hr_le_max_hr [OF assms] show ?thesis by simp
    next
      case 2
      with nth j min_hr_le_max_hr [OF assms] show ?thesis by simp
    next
      case 3
      then have "?n \<le> j" "j \<le> ?N - 1 - ?n" by auto
      then have "min_hr w_hr \<le> best_heat_rate (?s ! j)" "best_heat_rate (?s ! j) \<le> max_hr w_hr"
        unfolding min_hr_def max_hr_def using j N
        by (auto intro!: sort_values_nth_mono)
      with 3 nth j show ?thesis by simp
    qed
  qed
  have in_range: "min_hr w_hr \<le> best_heat_rate g \<and> best_heat_rate g \<le> max_hr w_hr"
    if "g \<in> set out" for g
    using that range len by (auto simp: in_set_conv_nth)
  have low: "length (filter (\<lambda>g. best_heat_rate g < min_hr w_hr) out) = 0"
    using in_range by (fastforce simp: filter_empty_conv)
  have high: "length (filter (\<lambda>g. max_hr w_hr < best_heat_rate g) out) = 0"
    using in_range by (fastforce simp: filter_empty_conv)
  have edge: "card ?edge = 2 * ?n" by (rule edge_rows_card [OF twice])
  have sub: "?changed \<subseteq> ?edge"
  proof
    fix j assume "j \<in> ?changed"
    then have j: "j < ?N" and c: "out ! j \<noteq> ?s ! j" by auto
    from nth j have "\<not> j < ?n \<Longrightarrow> \<not> ?N - ?n \<le> j \<Longrightarrow> out ! j = ?s ! j" by simp
    with c j show "j \<in> ?edge" by blast
  qed
  have "finite ?edge" by simp
  from card_mono [OF this sub] edge have le: "card ?changed \<le> 2 * ?n" by simp
  have eq: "card ?changed = 2 * ?n" if d: "distinct (map best_heat_rate w_hr)"
  proof -
    have ds: "distinct (map best_heat_rate ?s)" by (rule distinct_sort_values [OF d])
    have differ: "best_heat_rate (?s ! i) \<noteq> best_heat_rate (?s ! j)"
      if "i < ?N" "j < ?N" "i \<noteq> j" for i j
      using that ds nth_eq_iff_index_eq [of "map best_heat_rate ?s" i j] by simp
    have "?edge \<subseteq> ?changed"
    proof
      fix j assume "j \<in> ?edge"
      then have j: "j < ?N" and e: "j < ?n \<or> ?N - ?n \<le> j" by auto
      show "j \<in> ?changed"
      proof (cases "j < ?n")
        case True
        with j mid N have "best_heat_rate (?s ! ?n) \<noteq> best_heat_rate (?s ! j)"
          by (intro differ) auto
        then have "best_heat_rate (out ! j) \<noteq> best_heat_rate (?s ! j)"
          using nth j True by (simp add: min_hr_def)
        with j show ?thesis by auto
      next
        case False
        with e have top: "?N - ?n \<le> j" by simp
        with j mid N have "best_heat_rate (?s ! (?N - 1 - ?n)) \<noteq> best_heat_rate (?s ! j)"
          by (intro differ) auto
        then have "best_heat_rate (out ! j) \<noteq> best_heat_rate (?s ! j)"
          using nth j False top by (simp add: max_hr_def)
        with j show ?thesis by auto
      qed
    qed
    with sub have "?changed = ?edge" by blast
    with edge show ?thesis by simp
  qed
  from ret len nth low high edge le eq show ?thesis by blast
qed

text \<open>An instance with \<open>N = 200\<close>, where one row at each end is overwritten.\<close>

theorem clamp_outliers_winsorizes_witness:
  "equal_fleet \<noteq> [] \<and>
   (\<exists>out. clamp_outliers equal_fleet = Inr out \<and> length out = 200 \<and>
      length (filter (\<lambda>g. best_heat_rate g < min_hr equal_fleet) out) = 0 \<and>
      card {j::nat. j < 200 \<and> (j < 1 \<or> 200 - 1 \<le> j)} = 2 * 1 \<and>
      card {j. j < 200 \<and> out ! j \<noteq> sort_values equal_fleet ! j} \<le> 2 * 1)"
proof -
  have ne: "equal_fleet \<noteq> []" by (simp add: equal_fleet_def)
  have n: "n_outliers equal_fleet = 1" by (simp add: n_outliers_def equal_fleet_def)
  have len: "length equal_fleet = 200" by (simp add: equal_fleet_def)
  from clamp_outliers_winsorizes [OF ne] obtain out where
    "clamp_outliers equal_fleet = Inr out" "length out = length equal_fleet"
    "length (filter (\<lambda>g. best_heat_rate g < min_hr equal_fleet) out) = 0"
    "card {j. j < length equal_fleet \<and>
        (j < n_outliers equal_fleet \<or> length equal_fleet - n_outliers equal_fleet \<le> j)} =
      2 * n_outliers equal_fleet"
    "card {j. j < length equal_fleet \<and> out ! j \<noteq> sort_values equal_fleet ! j}
      \<le> 2 * n_outliers equal_fleet"
    by blast
  with ne show ?thesis unfolding n len by blast
qed

text \<open>
  The claim as worded (the number of values altered equals \<open>2 floor (N 0.005)\<close> for
  every set of \<open>N\<close> heat rates) fails where heat rates tie: of 200 equal heat rates one
  row at each end is overwritten, with the value it already has, and the frame that comes
  out is the sorted frame that went in.
\<close>

theorem equal_heat_rates_unaltered:
  "n_outliers equal_fleet = 1 \<and> clamp_outliers equal_fleet = Inr (sort_values equal_fleet)"
proof -
  have s: "sort_values equal_fleet = equal_fleet"
    by (rule sort_values_sorted_id) (simp add: equal_fleet_def sorted_replicate)
  have n: "n_outliers equal_fleet = 1" by (simp add: n_outliers_def equal_fleet_def)
  have lo: "min_hr equal_fleet = 10" by (simp add: min_hr_def s n) (simp add: equal_fleet_def)
  have hi: "max_hr equal_fleet = 10" by (simp add: max_hr_def s n) (simp add: equal_fleet_def)
  have "clamp_round 10 10 0 equal_fleet = equal_fleet"
    by (simp add: clamp_round_def equal_fleet_def list_update_same_conv)
  then have "clamp_outliers equal_fleet = Inr equal_fleet"
    by (simp add: clamp_outliers_def s n lo hi) (simp add: equal_fleet_def)
  with s n show ?thesis by simp
qed

section \<open>The plausibility band\<close>

lemma within_band_bounds: "within_band es h \<Longrightarrow> 6.711 \<le> h \<and> h \<le> 100"
  by (auto simp: within_band_def split: if_splits)

lemma kept_heat_rate_is_finite:
  "\<not> null_heat_rates g \<Longrightarrow> \<not> unrealistic_heat_rates g \<Longrightarrow>
   \<exists>r. best_heat_rate g = Fin r \<and> within_band (energy_source g) r"
  by (cases "best_heat_rate g")
     (auto simp: null_heat_rates_def unrealistic_heat_rates_def within_band_def)

lemma thermal_gens_w_hr_in_band:
  "g \<in> set (thermal_gens_w_hr thermal_gens) \<Longrightarrow> within_band (energy_source g) (best_heat_rate g)"
proof -
  assume "g \<in> set (thermal_gens_w_hr thermal_gens)"
  then obtain g0 where g0: "\<not> null_heat_rates g0" "\<not> unrealistic_heat_rates g0"
    and g: "g = with_real_heat_rate g0"
    by (auto simp: thermal_gens_w_hr_def)
  from kept_heat_rate_is_finite [OF g0] g show ?thesis
    by (auto simp: with_real_heat_rate_def)
qed

lemma thermal_gens_wo_hr_iff:
  "g \<in> set thermal_gens \<Longrightarrow>
   g \<in> set (thermal_gens_wo_hr thermal_gens) \<longleftrightarrow>
     \<not> (\<exists>r. best_heat_rate g = Fin r \<and> within_band (energy_source g) r)"
  by (cases "best_heat_rate g")
     (auto simp: thermal_gens_wo_hr_def null_heat_rates_def unrealistic_heat_rates_def
        within_band_def)

lemma clamped_row_in_band:
  assumes band: "\<forall>g\<in>set w_hr. within_band (energy_source g) (best_heat_rate g)"
    and ret: "clamp_outliers w_hr = Inr out" and g: "g \<in> set out"
  shows "6.711 \<le> best_heat_rate g \<and> best_heat_rate g \<le> 100 \<and>
     (within_band (energy_source g) (best_heat_rate g) \<or> best_heat_rate g = max_hr w_hr)"
proof -
  let ?N = "length w_hr" and ?n = "n_outliers w_hr" and ?s = "sort_values w_hr"
  from ret have ne: "w_hr \<noteq> []" by (auto simp: clamp_outliers_def split: if_splits)
  then have N: "0 < ?N" by simp
  from clamp_outliers_nth [OF ne] ret have len: "length out = ?N"
    and nth: "\<forall>j<?N. out ! j =
       (if j < ?n then (?s ! j)\<lparr>best_heat_rate := min_hr w_hr\<rparr>
        else if ?N - ?n \<le> j then (?s ! j)\<lparr>best_heat_rate := max_hr w_hr\<rparr>
        else ?s ! j)"
    by auto
  from g len obtain j where j: "j < ?N" and gj: "g = out ! j"
    by (auto simp: in_set_conv_nth)
  have row: "within_band (energy_source (?s ! i)) (best_heat_rate (?s ! i))" if "i < ?N" for i
  proof -
    from that have "?s ! i \<in> set ?s" by (intro nth_mem) simp
    with band show ?thesis by simp
  qed
  have mid: "?n \<le> ?N - 1 - ?n" by (rule n_outliers_bound [OF ne])
  from mid N have n: "?n < ?N" by arith
  from N have m: "?N - 1 - ?n < ?N" by arith
  have lo: "within_band (energy_source (?s ! ?n)) (min_hr w_hr)"
    unfolding min_hr_def by (rule row [OF n])
  have hi: "within_band (energy_source (?s ! (?N - 1 - ?n))) (max_hr w_hr)"
    unfolding max_hr_def by (rule row [OF m])
  consider "j < ?n" | "\<not> j < ?n" "?N - ?n \<le> j" | "\<not> j < ?n" "\<not> ?N - ?n \<le> j" by blast
  then show ?thesis
  proof cases
    case 1
    then have "best_heat_rate (?s ! j) \<le> min_hr w_hr"
      unfolding min_hr_def using n by (intro sort_values_nth_mono) auto
    with row [OF j] within_band_bounds [OF lo]
    have "within_band (energy_source (?s ! j)) (min_hr w_hr)"
      by (auto simp: within_band_def split: if_splits)
    with 1 nth j gj within_band_bounds [OF lo] show ?thesis by simp
  next
    case 2
    with nth j gj within_band_bounds [OF hi] show ?thesis by simp
  next
    case 3
    with nth j gj row [OF j] within_band_bounds [OF row [OF j]] show ?thesis by simp
  qed
qed

lemma those_length: "those xs = Some ys \<Longrightarrow> length ys = length xs"
  by (induction xs arbitrary: ys) (auto split: option.splits)

text \<open>
  Claim C4, as the code has it.  A row is kept as measured exactly when its parsed heat
  rate is a number inside the band of its energy source (8.607 to 100 for Coal, 6.711 to
  100 otherwise); every other row is treated as missing and gets an estimate.  After the
  outlier clamp every measured heat rate lies between 6.711 and 100, and inside the band
  of its energy source unless the clamp has lowered it to the upper boundary value.
\<close>

theorem measured_heat_rates_in_band:
  assumes "assign_heat_rates thermal_gens = Some (Inr (w_hr, wo_hr))"
  shows "(\<forall>g\<in>set (thermal_gens_w_hr thermal_gens).
            within_band (energy_source g) (best_heat_rate g)) \<and>
         (\<forall>g\<in>set thermal_gens.
            g \<in> set (thermal_gens_wo_hr thermal_gens) \<longleftrightarrow>
              \<not> (\<exists>r. best_heat_rate g = Fin r \<and> within_band (energy_source g) r)) \<and>
         length w_hr = length (thermal_gens_w_hr thermal_gens) \<and>
         length wo_hr = length (thermal_gens_wo_hr thermal_gens) \<and>
         (\<forall>g\<in>set w_hr.
            6.711 \<le> best_heat_rate g \<and> best_heat_rate g \<le> 100 \<and>
            (within_band (energy_source g) (best_heat_rate g) \<or>
             best_heat_rate g = max_hr (thermal_gens_w_hr thermal_gens)))"
proof -
  let ?w = "thermal_gens_w_hr thermal_gens"
  have band: "\<forall>g\<in>set ?w. within_band (energy_source g) (best_heat_rate g)"
    using thermal_gens_w_hr_in_band by blast
  from assms have ret: "clamp_outliers ?w = Inr w_hr"
    and sub: "assign_avg_heat_rates w_hr (thermal_gens_wo_hr thermal_gens) = Some wo_hr"
    by (auto simp: assign_heat_rates_def split: sum.splits)
  from ret have "?w \<noteq> []" by (auto simp: clamp_outliers_def split: if_splits)
  from clamp_outliers_nth [OF this] ret have 3: "length w_hr = length ?w" by auto
  from those_length [OF sub [unfolded assign_avg_heat_rates_def]]
  have 4: "length wo_hr = length (thermal_gens_wo_hr thermal_gens)" by simp
  have 5: "\<forall>g\<in>set w_hr.
            6.711 \<le> best_heat_rate g \<and> best_heat_rate g \<le> 100 \<and>
            (within_band (energy_source g) (best_heat_rate g) \<or> best_heat_rate g = max_hr ?w)"
    using clamped_row_in_band [OF band ret] by blast
  from band thermal_gens_wo_hr_iff 3 4 5 show ?thesis by blast
qed

text \<open>
  An instance: the coal plant with heat rate 10 is kept; the one with heat rate 8 and the
  turbine without a heat rate are estimated.
\<close>

theorem measured_heat_rates_in_band_witness:
  "assign_heat_rates small_fleet =
     Some (Inr ([\<lparr>prime_mover = ''ST'', energy_source = ''Coal'', operating_year = 1980, best_heat_rate = 10\<rparr>],
       [\<lparr>prime_mover = ''ST'', energy_source = ''Coal'', operating_year = 1985, best_heat_rate = Fin 10\<rparr>,
        \<lparr>prime_mover = ''GT'', energy_source = ''Gas'', operating_year = 2000, best_heat_rate = NaN\<rparr>])) \<and>
   length (thermal_gens_w_hr small_fleet) = 1 \<and> length (thermal_gens_wo_hr small_fleet) = 2"
proof -
  have ret: "assign_heat_rates small_fleet =
     Some (Inr ([\<lparr>prime_mover = ''ST'', energy_source = ''Coal'', operating_year = 1980, best_heat_rate = 10\<rparr>],
       [\<lparr>prime_mover = ''ST'', energy_source = ''Coal'', operating_year = 1985, best_heat_rate = Fin 10\<rparr>,
        \<lparr>prime_mover = ''GT'', energy_source = ''Gas'', operating_year = 2000, best_heat_rate = NaN\<rparr>]))"
    by (simp add: assign_heat_rates_def small_fleet_def thermal_gens_w_hr_def thermal_gens_wo_hr_def
      null_heat_rates_def unrealistic_heat_rates_def with_real_heat_rate_def
      clamp_outliers_def n_outliers_def sort_values_def min_hr_def max_hr_def
      assign_avg_heat_rates_def calculate_avg_heat_rate_def enlarge_window.simps
      similar_generators_def technology_average_def mean_def)
  from measured_heat_rates_in_band [OF ret] ret show ?thesis by simp
qed

text \<open>
  The claim as worded fails after the clamp: the clamp takes its boundary values from
  all fuels together.  Among 199 gas turbines at 7 the coal plant at 9 is the one row of
  the top 0.5 per cent and is set to the heat rate of the row below it, 7, which is
  outside the band for Coal, and it stays among the measured rows.
\<close>

theorem coal_clamped_below_band:
  "assign_heat_rates low_fleet =
     Some (Inr (replicate 199
       \<lparr>prime_mover = ''GT'', energy_source = ''Gas'', operating_year = 2000, best_heat_rate = 7\<rparr> @
     [\<lparr>prime_mover = ''ST'', energy_source = ''Coal'', operating_year = 1980, best_heat_rate = 7\<rparr>], [])) \<and>
   \<not> within_band ''Coal'' 7"
proof -
  let ?gas = "\<lparr>prime_mover = ''GT'', energy_source = ''Gas'', operating_year = 2000, best_heat_rate = 7::real\<rparr>"
  let ?coal = "\<lparr>prime_mover = ''ST'', energy_source = ''Coal'', operating_year = 1980, best_heat_rate = 9::real\<rparr>"
  let ?w = "replicate 199 ?gas @ [?coal]"
  have w: "thermal_gens_w_hr low_fleet = ?w"
    by (simp add: thermal_gens_w_hr_def low_fleet_def null_heat_rates_def
        unrealistic_heat_rates_def with_real_heat_rate_def)
  have wo: "thermal_gens_wo_hr low_fleet = []"
    by (simp add: thermal_gens_wo_hr_def low_fleet_def null_heat_rates_def
        unrealistic_heat_rates_def)
  have s: "sort_values ?w = ?w"
    by (rule sort_values_sorted_id) (simp add: sorted_append sorted_replicate)
  have n: "n_outliers ?w = 1" by (simp add: n_outliers_def)
  have lo: "min_hr ?w = 7" by (simp add: min_hr_def s n nth_append)
  have hi: "max_hr ?w = 7" by (simp add: max_hr_def s n nth_append)
  have "clamp_round 7 7 0 ?w = replicate 199 ?gas @ [?coal\<lparr>best_heat_rate := 7\<rparr>]"
    by (simp add: clamp_round_def nth_append list_update_append list_update_same_conv)
  then have "clamp_outliers ?w = Inr (replicate 199 ?gas @ [?coal\<lparr>best_heat_rate := 7\<rparr>])"
    by (simp add: clamp_outliers_def s n lo hi)
  then show ?thesis
    by (simp add: assign_heat_rates_def w wo assign_avg_heat_rates_def within_band_def)
qed

section \<open>Retired capacity\<close>

text \<open>
  Claim C7, as the code has it.  For an active unit that the join pairs with one retired
  record, the retired capacity is subtracted from the nameplate capacity: if the
  difference is exactly zero the unit is dropped; if it is positive the unit is kept
  with the difference as its capacity; if it is negative the unit is kept with its
  nameplate capacity unchanged, and the negative difference stands only in the helper
  column that is dropped before the upload.
\<close>

theorem retired_capacity_netted:
  assumes "filter (\<lambda>r. index_cols r = index_cols g) retired_gens = [r]"
  shows "(nameplate_capacity_mw g - retired_mw r = 0 \<longrightarrow> netted_generators [g] retired_gens = []) \<and>
         (nameplate_capacity_mw g - retired_mw r > 0 \<longrightarrow>
            netted_generators [g] retired_gens =
              [g\<lparr>nameplate_capacity_mw := nameplate_capacity_mw g - retired_mw r\<rparr>]) \<and>
         (nameplate_capacity_mw g - retired_mw r < 0 \<longrightarrow>
            netted_generators [g] retired_gens = [g] \<and>
            map net_operating_capacity_limit_mw
              (generators_no_retired (generators_and_retired [g] retired_gens)) =
              [Some (nameplate_capacity_mw g - retired_mw r)])"
  using assms
  by (simp add: netted_generators_def generators_no_retired_def generators_and_retired_def
      left_matches_def)

text \<open>
  The two examples of the specification: 40 MW retired of 100 MW leaves 60 MW; 100 MW
  retired of 100 MW drops the unit.
\<close>

theorem retired_capacity_netted_witness:
  "netted_generators [unit_100] [retired_of 40] = [unit_100\<lparr>nameplate_capacity_mw := 60\<rparr>] \<and>
   netted_generators [unit_100] [retired_of 100] = []"
proof -
  have 1: "filter (\<lambda>r. index_cols r = index_cols unit_100) [retired_of mw] = [retired_of mw]" for mw
    by (simp add: unit_100_def retired_of_def)
  from retired_capacity_netted [OF 1 [of 40]] retired_capacity_netted [OF 1 [of 100]]
  show ?thesis by (simp add: unit_100_def retired_of_def)
qed

text \<open>
  The claim as worded (a negative net capacity is flagged) fails: the code has no flag.
  With 140 MW retired of 100 MW the unit goes on exactly as it does with no retirement
  record at all.
\<close>

theorem over_retired_unit_not_flagged:
  "netted_generators [unit_100] [retired_of 140] = [unit_100] \<and>
   netted_generators [unit_100] [] = [unit_100]"
  by (simp add: netted_generators_def generators_no_retired_def generators_and_retired_def
      left_matches_def unit_100_def retired_of_def)

section \<open>The second best monthly heat rate\<close>

text \<open>
  Sorting a masked row: the positive finite ratios in ascending order, then the NaNs.
\<close>

lemma where_positive_cases:
  "where_positive h = (case h of Fin x \<Rightarrow> if 0 < x then Fin x else NaN | _ \<Rightarrow> NaN)"
  by (cases h) (auto simp: where_positive_def replace_zero_inf_def)

lemma insort_NaN:
  "insort_key sort_rank NaN (map Fin ss @ replicate k NaN) = map Fin ss @ replicate (Suc k) NaN"
  by (induction ss) (cases k, auto)

lemma insort_Fin:
  "insort_key sort_rank (Fin x) (map Fin ss @ replicate k NaN) =
     map Fin (insort x ss) @ replicate k NaN"
  by (induction ss) (cases k, auto)

lemma np_sort_where_positive:
  "np_sort (map where_positive hs) =
     map Fin (sort (List.map_filter
        (\<lambda>h. case h of Fin x \<Rightarrow> if 0 < x then Some x else None | _ \<Rightarrow> None) hs)) @
     replicate (length hs - length (List.map_filter
        (\<lambda>h. case h of Fin x \<Rightarrow> if 0 < x then Some x else None | _ \<Rightarrow> None) hs)) NaN"
proof (induction hs)
  case Nil
  then show ?case by (simp add: np_sort_def map_filter_simps)
next
  case (Cons h hs)
  let ?f = "\<lambda>h. case h of Fin x \<Rightarrow> if 0 < x then Some x else None | _ \<Rightarrow> None"
  have le: "length (List.map_filter ?f hs) \<le> length hs"
    by (simp add: map_filter_def)
  show ?case
  proof (cases "\<exists>x. h = Fin x \<and> 0 < x")
    case True
    then obtain x where h: "h = Fin x" "0 < x" by blast
    then have "where_positive h = Fin x" by (simp add: where_positive_cases)
    with Cons h le show ?thesis
      by (simp add: np_sort_def map_filter_simps insort_Fin)
  next
    case False
    then have w: "where_positive h = NaN" and f: "?f h = None"
      by (cases h; simp add: where_positive_cases)+
    from Cons w f le show ?thesis
      by (simp add: np_sort_def map_filter_simps insort_NaN Suc_diff_le)
  qed
qed

lemma length_heat_rates [simp]: "length (heat_rates r) = 12"
  by (simp add: heat_rates_def months_def)

lemma second_best_eq:
  "second_best r = (if length (ranked r) < 2 then NaN else Fin (ranked r ! 1))"
proof -
  let ?f = "\<lambda>h. case h of Fin x \<Rightarrow> if 0 < x then Some x else None | _ \<Rightarrow> None"
  let ?ps = "List.map_filter ?f (heat_rates r)"
  have le: "length ?ps \<le> 12"
    using length_filter_le [of "\<lambda>x. ?f x \<noteq> None" "heat_rates r"] by (simp add: map_filter_def)
  have "second_best r = (map Fin (sort ?ps) @ replicate (12 - length ?ps) NaN) ! 1"
    by (simp add: second_best_def np_sort_where_positive)
  also have "\<dots> = (if length (sort ?ps) < 2 then NaN else Fin (sort ?ps ! 1))"
    using le by (auto simp: nth_append)
  finally show ?thesis by (simp add: ranked_def)
qed

lemma months_eq: "months = [1, 2, 3, 4, 5, 6, 7, 8, 9, 10, 11, 12]"
  by (simp add: months_def upt_rec)

lemma drop_negative_none:
  assumes "\<forall>r\<in>set rows. \<not> negative_filter r"
  shows "drop_negative rows = zip [0..<length rows] rows"
  unfolding drop_negative_def using assms by (auto intro!: filter_True dest: set_zip_rightD)

lemma best_heat_rate_column_aligned:
  "best_heat_rate_column (zip [0..<length rows] rows) =
     map (\<lambda>(label, r). (label, r, second_best r)) (zip [0..<length rows] rows)"
proof -
  let ?kept = "zip [0..<length rows] rows"
  let ?series = "map (\<lambda>(label, r). second_best r) ?kept"
  have "(if label < length ?series then ?series ! label else NaN) = second_best r"
    if "(label, r) \<in> set ?kept" for label r
  proof -
    from that have l: "label < length rows" and r: "r = rows ! label"
      by (auto simp: set_zip)
    then show ?thesis by simp
  qed
  then show ?thesis
    unfolding best_heat_rate_column_def Let_def by (intro map_cong) auto
qed

text \<open>
  Claim C3, as the code has it.  Where no record of the year is dropped as consistently
  negative, the Best Heat Rate of every record is the second entry of its monthly ratios
  sorted ascending, after every ratio that is not a positive finite number has been left
  out: the months with no generation (the ratio is infinite or NaN), the months in which
  fuel and generation have opposite signs, and the months with generation but no fuel
  burnt (the ratio is 0); it is NaN if fewer than two ratios remain.  It is the second
  entry whatever its value, so it equals the least ratio when the two least ones tie.
\<close>

theorem best_heat_rate_is_second_smallest:
  assumes "\<forall>r\<in>set rows. \<not> negative_filter r"
  shows "heat_rate_outputs_wide rows =
     map (\<lambda>(label, r). (label, r, if length (ranked r) < 2 then NaN else Fin (ranked r ! 1)))
       (zip [0..<length rows] rows)"
  by (simp add: heat_rate_outputs_wide_def drop_negative_none [OF assms]
      best_heat_rate_column_aligned second_best_eq)

text \<open>An instance: the ratios 9, 10, ..., 20 give 10.\<close>

lemma heat_rates_full_year: "heat_rates full_year = map (\<lambda>m. Fin (real m + 8)) months"
  by (simp add: heat_rates_def heat_rate_month_def full_year_def div_cells_def float_div_def)

lemma second_best_full_year: "second_best full_year = Fin 10"
  by (simp add: second_best_def heat_rates_full_year months_eq where_positive_def
      replace_zero_inf_def np_sort_def)

lemma second_best_one_month: "second_best one_month = NaN"
  by (simp add: second_best_def heat_rates_def heat_rate_month_def one_month_def div_cells_def
      float_div_def months_eq where_positive_def replace_zero_inf_def np_sort_def)

lemma negative_filter_examples:
  "negative_filter always_negative" "\<not> negative_filter one_month" "\<not> negative_filter full_year"
  "\<not> negative_filter idle_january"
  by (simp_all add: negative_filter_def heat_rates_def heat_rate_month_def div_cells_def
      float_div_def months_eq float_le_def always_negative_def one_month_def full_year_def
      idle_january_def)

theorem best_heat_rate_is_second_smallest_witness:
  "\<not> negative_filter full_year \<and> heat_rate_outputs_wide [full_year] = [(0, full_year, Fin 10)]"
proof -
  have n: "\<forall>r\<in>set [full_year]. \<not> negative_filter r" by (simp add: negative_filter_examples)
  have "ranked full_year = map (\<lambda>m. real m + 8) months"
    by (simp add: ranked_def heat_rates_full_year months_eq map_filter_simps)
  then have "length (ranked full_year) = 12" "ranked full_year ! 1 = 10"
    by (simp_all add: months_eq)
  with best_heat_rate_is_second_smallest [OF n] negative_filter_examples show ?thesis
    by simp
qed

text \<open>
  The claim as worded (a month is left out for its generation being zero or less, or for
  a ratio that is not finite) fails for a month with generation but no fuel burnt: its
  ratio 0 is left out by the code, which returns the second of 10, 11, ..., 20, while
  the ranking of the claim keeps it and gives the second of 0, 10, 11, ..., 20.
\<close>

theorem zero_fuel_month_excluded:
  "heat_rate_outputs_wide [idle_january] = [(0, idle_january, Fin 11)] \<and>
   spec_best_heat_rate idle_january = Fin 10"
proof -
  have hr: "heat_rates idle_january = Fin 0 # map (\<lambda>m. Fin (real m + 8)) [2, 3, 4, 5, 6, 7, 8, 9, 10, 11, 12]"
    by (simp add: heat_rates_def heat_rate_month_def idle_january_def div_cells_def
        float_div_def months_eq)
  have sb: "second_best idle_january = Fin 11"
    by (simp add: second_best_def hr where_positive_def replace_zero_inf_def np_sort_def)
  have "drop_negative [idle_january] = [(0, idle_january)]"
    by (simp add: drop_negative_def negative_filter_examples)
  then have 1: "heat_rate_outputs_wide [idle_january] = [(0, idle_january, Fin 11)]"
    by (simp add: heat_rate_outputs_wide_def best_heat_rate_column_def sb)
  have "spec_ranked idle_january = 0 # map (\<lambda>m. real m + 8) [2, 3, 4, 5, 6, 7, 8, 9, 10, 11, 12]"
    by (simp add: spec_ranked_def heat_rate_month_def idle_january_def div_cells_def
        float_div_def months_eq map_filter_simps)
  then have 2: "spec_best_heat_rate idle_january = Fin 10"
    by (simp add: spec_best_heat_rate_def)
  from 1 2 show ?thesis by simp
qed

text \<open>
  Claim C10 at a failing input.  The first record is dropped as consistently negative,
  so the records that remain carry the labels 1 and 2, while the series of second-best
  values is labelled 0 and 1.  The assignment aligns on labels: the record with a single
  positive ratio gets the value computed for the record after it, 10, and the record
  with twelve positive ratios gets NaN.
\<close>

theorem best_heat_rate_misaligned:
  "heat_rate_outputs_wide [always_negative, one_month, full_year] =
     [(1, one_month, Fin 10), (2, full_year, NaN)] \<and>
   length (ranked one_month) = 1 \<and> length (ranked full_year) = 12"
proof -
  have "drop_negative [always_negative, one_month, full_year] = [(1, one_month), (2, full_year)]"
    by (simp add: drop_negative_def negative_filter_examples upt_rec)
  then have "heat_rate_outputs_wide [always_negative, one_month, full_year] =
     [(1, one_month, Fin 10), (2, full_year, NaN)]"
    by (simp add: heat_rate_outputs_wide_def best_heat_rate_column_def second_best_full_year
        second_best_one_month)
  moreover have "length (ranked one_month) = 1"
    by (simp add: ranked_def heat_rates_def heat_rate_month_def one_month_def div_cells_def
      float_div_def months_eq map_filter_simps)
  moreover have "length (ranked full_year) = 12"
    by (simp add: ranked_def heat_rates_full_year months_eq map_filter_simps)
  ultimately show ?thesis by simp
qed

section \<open>Multi-fuel plants\<close>

text \<open>
  No prime-mover code is the name of a column, so the look-up in the project frame
  raises KeyError for every row and no row is dropped.
\<close>

lemma loc_prime_mover:
  "pm \<in> set fuel_prime_movers \<Longrightarrow> loc projects a pm = Inl KeyError"
  by (auto simp: loc_def fuel_prime_movers_def fuel_based_gen_projects_columns_def)

lemma to_drop_never:
  "prime_mover r \<in> set fuel_prime_movers \<Longrightarrow> to_drop projects r = Inr False"
  by (simp add: to_drop_def loc_prime_mover)

lemma drop_indices_none:
  "\<forall>(label, r, best)\<in>set outputs. prime_mover r \<in> set fuel_prime_movers \<Longrightarrow>
   drop_indices projects outputs = Inr outputs"
  by (induction outputs) (auto simp: to_drop_never)

lemma multi_fuel_heat_rate_outputs_eq:
  assumes "\<forall>(label, r, best)\<in>set outputs. prime_mover r \<in> set fuel_prime_movers"
  shows "multi_fuel_heat_rate_outputs projects outputs =
     Inr (filter (\<lambda>(label, r, best).
                  float_le (Fin 0.05) (fraction_of_yearly_fuel_use r) \<and>
                  float_le (fraction_of_yearly_fuel_use r) (Fin 0.95)) outputs)"
  unfolding multi_fuel_heat_rate_outputs_def
  using assms by (intro drop_indices_none) auto

lemma float_le_Fin_iff:
  "float_le (Fin a) h \<and> float_le h (Fin b) \<longleftrightarrow> (\<exists>s. h = Fin s \<and> a \<le> s \<and> s \<le> b)"
  by (cases h) (auto simp: float_le_def)

text \<open>
  What the filter does.  The records written to \<^verbatim>\<open>multi_fuel_heat_rates.tab\<close> are
  those whose yearly share of fuel use lies between 5 and 95 per cent, both ends included;
  the project frame plays no part.
\<close>

lemma multi_fuel_flag:
  assumes "\<forall>(label, r, best)\<in>set outputs. prime_mover r \<in> set fuel_prime_movers"
  shows "\<exists>flagged. multi_fuel_heat_rate_outputs projects outputs = Inr flagged \<and>
     (\<forall>(label, r, best)\<in>set flagged.
        (label, r, best) \<in> set outputs \<and>
        (\<exists>s. fraction_of_yearly_fuel_use r = Fin s \<and> 0.05 \<le> s \<and> s \<le> 0.95)) \<and>
     (\<forall>(label, r, best)\<in>set outputs.
        (\<exists>s. fraction_of_yearly_fuel_use r = Fin s \<and> 0.05 \<le> s \<and> s \<le> 0.95) \<and>
        length (rows_of_key projects (plant_code r) (prime_mover r)) \<le> 1 \<longrightarrow>
        (label, r, best) \<in> set flagged)"
  unfolding multi_fuel_heat_rate_outputs_eq [OF assms]
  by (auto simp: float_le_Fin_iff)

text \<open>
  The examples of the specification: of the shares 92, 8, 97 and 3 per cent the first two
  are flagged.
\<close>

lemma fraction_fuel_share: "fraction_of_yearly_fuel_use (fuel_share pct) = Fin (pct / 100)"
  by (simp add: fraction_of_yearly_fuel_use_def year_sum_def months_eq map_filter_simps
      fuel_share_def float_div_def)

lemma multi_fuel_examples:
  "\<exists>flagged.
     multi_fuel_heat_rate_outputs []
       [(0, fuel_share 92, NaN), (1, fuel_share 8, NaN), (2, fuel_share 97, NaN),
        (3, fuel_share 3, NaN)] = Inr flagged \<and>
     (0, fuel_share 92, NaN) \<in> set flagged \<and> (1, fuel_share 8, NaN) \<in> set flagged \<and>
     (2, fuel_share 97, NaN) \<notin> set flagged \<and> (3, fuel_share 3, NaN) \<notin> set flagged"
proof -
  let ?outputs = "[(0, fuel_share 92, NaN), (1, fuel_share 8, NaN), (2, fuel_share 97, NaN),
     (3::nat, fuel_share 3, NaN)]"
  have pm: "\<forall>(label, r, best)\<in>set ?outputs. prime_mover r \<in> set fuel_prime_movers"
    by (simp add: fuel_share_def fuel_prime_movers_def)
  from multi_fuel_flag [OF pm, of "[]"] obtain flagged where
    ret: "multi_fuel_heat_rate_outputs [] ?outputs = Inr flagged"
    and only: "\<forall>(label, r, best)\<in>set flagged.
        (label, r, best) \<in> set ?outputs \<and>
        (\<exists>s. fraction_of_yearly_fuel_use r = Fin s \<and> 0.05 \<le> s \<and> s \<le> 0.95)"
    and every: "\<forall>(label, r, best)\<in>set ?outputs.
        (\<exists>s. fraction_of_yearly_fuel_use r = Fin s \<and> 0.05 \<le> s \<and> s \<le> 0.95) \<and>
        length (rows_of_key [] (plant_code r) (prime_mover r)) \<le> 1 \<longrightarrow>
        (label, r, best) \<in> set flagged"
    by blast
  have in_range: "\<exists>s. fraction_of_yearly_fuel_use (fuel_share pct) = Fin s \<and> 0.05 \<le> s \<and> s \<le> 0.95"
    if "5 \<le> pct" "pct \<le> 95" for pct
    using that by (intro exI [of _ "pct / 100"]) (simp add: fraction_fuel_share)
  have key: "length (rows_of_key [] (plant_code r) (prime_mover r)) \<le> 1" for r
    by (simp add: rows_of_key_def)
  have 0: "(0, fuel_share 92, NaN) \<in> set flagged"
    using bspec [OF every, of "(0, fuel_share 92, NaN)"] in_range [of 92] key [of "fuel_share 92"]
    by simp
  have 1: "(1, fuel_share 8, NaN) \<in> set flagged"
    using bspec [OF every, of "(1, fuel_share 8, NaN)"] in_range [of 8] key [of "fuel_share 8"]
    by simp
  have 2: "(2, fuel_share 97, NaN) \<notin> set flagged"
  proof
    assume "(2, fuel_share 97, NaN) \<in> set flagged"
    from bspec [OF only this] show False by (auto simp: fraction_fuel_share)
  qed
  have 3: "(3, fuel_share 3, NaN) \<notin> set flagged"
  proof
    assume "(3, fuel_share 3, NaN) \<in> set flagged"
    from bspec [OF only this] show False by (auto simp: fraction_fuel_share)
  qed
  from ret 0 1 2 3 show ?thesis by blast
qed

text \<open>
  Claim C8 at two failing inputs.  The docstring and the console message call a plant
  multi-fuel when it uses \<^verbatim>\<open>more than 5%\<close> of its secondary fuel, yet the filter is
  \<^verbatim>\<open>>= 0.05\<close>: a record with a share of exactly 5 per cent is written out.  And the
  loop that is to leave out the plants that burn different fuels in different units
  never drops a record: for a steam plant with a gas unit and an oil unit, whose key has
  two rows in the project frame, both records (each with half of the fuel) are written
  out.
\<close>

theorem multi_fuel_flag_diverges:
  "fraction_of_yearly_fuel_use (fuel_share 5) = Fin 0.05 \<and> \<not> spec_multi_fuel 0.05 \<and>
   multi_fuel_heat_rate_outputs [] [(0, fuel_share 5, NaN)] = Inr [(0, fuel_share 5, NaN)] \<and>
   length (rows_of_key two_fuel_units 5 ''ST'') = 2 \<and>
   plant_code (fuel_share 50) = 5 \<and> prime_mover (fuel_share 50) = ''ST'' \<and>
   fraction_of_yearly_fuel_use (fuel_share 50) = Fin 0.5 \<and>
   multi_fuel_heat_rate_outputs two_fuel_units
     [(0, fuel_share 50, NaN), (1, (fuel_share 50)\<lparr>energy_source := ''DFO''\<rparr>, NaN)] =
     Inr [(0, fuel_share 50, NaN), (1, (fuel_share 50)\<lparr>energy_source := ''DFO''\<rparr>, NaN)]"
proof -
  have 1: "fraction_of_yearly_fuel_use (fuel_share 5) = Fin 0.05"
    by (simp add: fraction_fuel_share)
  have 2: "\<not> spec_multi_fuel 0.05" by (simp add: spec_multi_fuel_def)
  have pm: "prime_mover (fuel_share pct) \<in> set fuel_prime_movers" for pct
    by (simp add: fuel_share_def fuel_prime_movers_def)
  have 3: "multi_fuel_heat_rate_outputs [] [(0, fuel_share 5, NaN)] = Inr [(0, fuel_share 5, NaN)]"
    by (simp add: multi_fuel_heat_rate_outputs_def to_drop_never [OF pm] fraction_fuel_share
        float_le_def)
  have 4: "length (rows_of_key two_fuel_units 5 ''ST'') = 2"
    by (simp add: rows_of_key_def two_fuel_units_def)
  have 5: "plant_code (fuel_share 50) = 5 \<and> prime_mover (fuel_share 50) = ''ST''"
    by (simp add: fuel_share_def)
  have 6: "fraction_of_yearly_fuel_use (fuel_share 50) = Fin 0.5"
    by (simp add: fraction_fuel_share)
  have share: "fraction_of_yearly_fuel_use ((fuel_share 50)\<lparr>energy_source := ''DFO''\<rparr>) = Fin 0.5"
    using 6 by (simp add: fraction_of_yearly_fuel_use_def)
  have drop: "to_drop two_fuel_units r = Inr False" if "prime_mover r = ''ST''" for r
    using that by (simp add: to_drop_def loc_def fuel_based_gen_projects_columns_def)
  have 7: "multi_fuel_heat_rate_outputs two_fuel_units
     [(0, fuel_share 50, NaN), (1, (fuel_share 50)\<lparr>energy_source := ''DFO''\<rparr>, NaN)] =
     Inr [(0, fuel_share 50, NaN), (1, (fuel_share 50)\<lparr>energy_source := ''DFO''\<rparr>, NaN)]"
    using 5 by (simp add: multi_fuel_heat_rate_outputs_def 6 share float_le_def drop)
  from 1 2 3 4 5 6 7 show ?thesis by simp
qed

section \<open>The unit aggregator\<close>

lemma agg_max_single [simp]: "agg_max [x] = x"
  by (cases "x = NA") (simp_all add: agg_max_def)

lemma agg_max_const:
  assumes "xs \<noteq> []" "\<forall>x\<in>set xs. x = v" "v \<noteq> NA"
  shows "agg_max xs = v"
proof -
  from assms have f: "filter (\<lambda>x. x \<noteq> NA) xs = xs" by (intro filter_True) auto
  from assms have "set xs = {v}" by (cases xs) auto
  then have "Max (set xs) = v" by simp
  with assms(1) show ?thesis unfolding agg_max_def f by simp
qed

lemma agg_single: "nameplate_capacity (r :: 'c row) \<noteq> None \<Longrightarrow> agg [r] = r"
  by (cases r) (auto simp: agg_def agg_sum_def map_filter_simps)

lemma nameplate_capacity_agg: "nameplate_capacity (agg g) \<noteq> None"
  by (simp add: agg_def agg_sum_def)

lemma group_key_agg:
  assumes "g \<noteq> []" "\<forall>r\<in>set g. group_key K r = k" "NA \<notin> set k"
  shows "group_key K (agg g) = k"
proof -
  obtain r0 where r0: "r0 \<in> set g" using assms(1) by (cases g) auto
  with assms have k: "k = map (cells r0) K" by (auto simp: group_key_def)
  have "agg_max (map (\<lambda>r. cells r c) g) = cells r0 c" if c: "c \<in> set K" for c
  proof (rule agg_max_const)
    show "map (\<lambda>r. cells r c) g \<noteq> []" using assms(1) by simp
    show "\<forall>x\<in>set (map (\<lambda>r. cells r c) g). x = cells r0 c"
    proof
      fix x assume "x \<in> set (map (\<lambda>r. cells r c) g)"
      then obtain r where r: "r \<in> set g" "x = cells r c" by auto
      with assms(2) have "map (cells r) K = map (cells r0) K"
        using k by (simp add: group_key_def)
      with c r show "x = cells r0 c" by simp
    qed
    show "cells r0 c \<noteq> NA" using assms(3) c unfolding k by force
  qed
  then show ?thesis unfolding k by (simp add: group_key_def agg_def)
qed

lemma filter_unique_key:
  "distinct (map f xs) \<Longrightarrow> x \<in> set xs \<Longrightarrow> filter (\<lambda>r. f r = f x) xs = [x]"
proof (induction xs)
  case Nil
  then show ?case by simp
next
  case (Cons a xs)
  from Cons.prems have notin: "f a \<notin> f ` set xs" and d: "distinct (map f xs)" by simp_all
  show ?case
  proof (cases "x = a")
    case True
    have "filter (\<lambda>r. f r = f a) xs = []"
      unfolding filter_empty_conv using notin by (auto simp: image_iff)
    with True show ?thesis by simp
  next
    case False
    with Cons.prems have x: "x \<in> set xs" by simp
    with notin have "f a \<noteq> f x" by (auto simp: image_iff)
    moreover from Cons.IH [OF d x] have "filter (\<lambda>r. f r = f x) xs = [x]" .
    ultimately show ?thesis by simp
  qed
qed

lemma fillna_unique_id:
  "\<forall>(i, r)\<in>set df. cells r col \<noteq> NA \<Longrightarrow> fillna_unique col df = df"
  unfolding fillna_unique_def by (intro map_idI) auto

lemma fold_fillna_unique_id:
  "\<forall>(i, r)\<in>set df. \<forall>col\<in>set cols. cells r col \<noteq> NA \<Longrightarrow> fold fillna_unique cols df = df"
proof (induction cols)
  case Nil
  then show ?case by simp
next
  case (Cons c cols)
  then have "fillna_unique c df = df" by (intro fillna_unique_id) auto
  with Cons show ?case by auto
qed

lemma map_snd_reset_index [simp]: "map snd (reset_index rows) = rows"
  by (simp add: reset_index_def)

lemma groupby_agg_aggregated: "aggregated K (groupby_agg K df)"
proof -
  define rows where "rows = filter (\<lambda>r. NA \<notin> set (group_key K r)) (map snd df)"
  define keys where "keys = sort (remdups (map (group_key K) rows))"
  define G where "G = (\<lambda>k. filter (\<lambda>r. group_key K r = k) rows)"
  have out: "groupby_agg K df = map (\<lambda>k. agg (G k)) keys"
    by (simp add: groupby_agg_def Let_def rows_def keys_def G_def)
  have set_keys: "set keys = group_key K ` set rows" by (simp add: keys_def)
  have na: "NA \<notin> set k" if "k \<in> set keys" for k
  proof -
    from that set_keys obtain r where "r \<in> set rows" "k = group_key K r" by auto
    then show ?thesis by (simp add: rows_def)
  qed
  have key: "group_key K (agg (G k)) = k" if "k \<in> set keys" for k
  proof (rule group_key_agg)
    from that set_keys obtain r where "r \<in> set rows" "k = group_key K r" by auto
    then have "r \<in> set (G k)" by (simp add: G_def)
    then show "G k \<noteq> []" by auto
    show "\<forall>r\<in>set (G k). group_key K r = k" by (simp add: G_def)
    show "NA \<notin> set k" by (rule na [OF that])
  qed
  have "map (\<lambda>k. group_key K (agg (G k))) keys = keys"
    by (rule map_idI) (rule key)
  then have keys_out: "map (group_key K) (groupby_agg K df) = keys"
    by (simp add: out comp_def)
  have 1: "sorted (map (group_key K) (groupby_agg K df))"
    unfolding keys_out by (simp add: keys_def)
  have 2: "distinct (map (group_key K) (groupby_agg K df))"
    unfolding keys_out by (simp add: keys_def)
  have 3: "NA \<notin> set (group_key K r) \<and> nameplate_capacity r \<noteq> None"
    if "r \<in> set (groupby_agg K df)" for r
  proof -
    from that obtain k where k: "k \<in> set keys" and r: "r = agg (G k)"
      unfolding out by auto
    from key [OF k] na [OF k] r show ?thesis by (simp add: nameplate_capacity_agg)
  qed
  from 1 2 3 show ?thesis unfolding aggregated_def by blast
qed

lemma aggregate_aggregated:
  assumes "aggregated K rows"
  shows "aggregate K (reset_index rows) = reset_index rows"
proof -
  from assms have s: "sorted (map (group_key K) rows)" and d: "distinct (map (group_key K) rows)"
    and r: "\<forall>r\<in>set rows. NA \<notin> set (group_key K r) \<and> nameplate_capacity r \<noteq> None"
    by (auto simp: aggregated_def)
  have "\<forall>(i, r)\<in>set (reset_index rows). \<forall>col\<in>set K. cells r col \<noteq> NA"
  proof (clarify)
    fix i r' col assume "(i, r') \<in> set (reset_index rows)" "col \<in> set K" "cells r' col = NA"
    then have "r' \<in> set rows" by (auto simp: reset_index_def dest: set_zip_rightD)
    with r have "NA \<notin> set (group_key K r')" by blast
    with \<open>col \<in> set K\<close> \<open>cells r' col = NA\<close> show False by (force simp: group_key_def)
  qed
  then have fill: "fold fillna_unique K (reset_index rows) = reset_index rows"
    by (rule fold_fillna_unique_id)
  have rows: "filter (\<lambda>r. NA \<notin> set (group_key K r)) rows = rows"
    using r by (intro filter_True) auto
  have keys: "sort (remdups (map (group_key K) rows)) = map (group_key K) rows"
    using s d by (simp add: distinct_remdups_id sort_key_id_if_sorted)
  have "map (\<lambda>k. agg (filter (\<lambda>r. group_key K r = k) rows)) (map (group_key K) rows) = rows"
  proof -
    have "agg (filter (\<lambda>r. group_key K r = group_key K x) rows) = x" if "x \<in> set rows" for x
      using filter_unique_key [OF d that] r that by (simp add: agg_single)
    then show ?thesis by (simp add: map_idI comp_def)
  qed
  then have "groupby_agg K (reset_index rows) = rows"
    by (simp add: groupby_agg_def Let_def rows keys)
  then show ?thesis by (simp add: aggregate_def fill)
qed

subsection \<open>Placeholders\<close>

text \<open>
  After the loop over the key columns no key cell is missing, so \<^verbatim>\<open>groupby\<close> loses no
  row; a cell that was there is not touched.
\<close>

lemma placeholder_not_NA [simp]: "placeholder col df i \<noteq> NA"
  by (simp add: placeholder_def)

lemma fillna_unique_cases:
  assumes "(i, r) \<in> set (fillna_unique c df)"
  obtains r0 where "(i, r0) \<in> set df" "cells r0 c = NA"
      "r = r0\<lparr>cells := (cells r0)(c := placeholder c df i)\<rparr>"
    | "(i, r) \<in> set df" "cells r c \<noteq> NA"
proof -
  from assms obtain i0 r0 where in_df: "(i0, r0) \<in> set df"
    and eq: "(i, r) = (i0, if cells r0 c = NA
        then r0\<lparr>cells := (cells r0)(c := placeholder c df i0)\<rparr> else r0)"
    unfolding fillna_unique_def by auto
  show thesis
  proof (cases "cells r0 c = NA")
    case True
    with eq in_df show thesis by (intro that(1) [of r0]) simp_all
  next
    case False
    with eq in_df show thesis by (intro that(2)) simp_all
  qed
qed

lemma fillna_unique_filled:
  "(i, r) \<in> set (fillna_unique c df) \<Longrightarrow> cells r c \<noteq> NA"
  by (erule fillna_unique_cases) simp_all

lemma fillna_unique_keeps:
  "(i, r) \<in> set (fillna_unique c df) \<Longrightarrow>
   \<exists>r0. (i, r0) \<in> set df \<and> nameplate_capacity r = nameplate_capacity r0 \<and>
        (\<forall>c'. cells r0 c' \<noteq> NA \<longrightarrow> cells r c' = cells r0 c')"
proof (erule fillna_unique_cases)
  fix r0 assume "(i, r0) \<in> set df" "cells r0 c = NA"
    "r = r0\<lparr>cells := (cells r0)(c := placeholder c df i)\<rparr>"
  then show ?thesis by (intro exI [of _ r0]) auto
next
  assume "(i, r) \<in> set df" "cells r c \<noteq> NA"
  then show ?thesis by (intro exI [of _ r]) simp
qed

lemma length_fillna_unique [simp]: "length (fillna_unique c df) = length df"
  by (simp add: fillna_unique_def)

lemma length_fold_fillna_unique [simp]: "length (fold fillna_unique cols df) = length df"
  by (induction cols arbitrary: df) simp_all

lemma map_capacity_fillna_unique [simp]:
  "map (\<lambda>(i, r). nameplate_capacity r) (fillna_unique c df) = map (\<lambda>(i, r). nameplate_capacity r) df"
  unfolding fillna_unique_def map_map by (rule map_cong [OF refl]) (simp split: prod.splits)

lemma map_capacity_fold_fillna_unique [simp]:
  "map (\<lambda>(i, r). nameplate_capacity r) (fold fillna_unique cols df) =
   map (\<lambda>(i, r). nameplate_capacity r) df"
  by (induction cols arbitrary: df) simp_all

lemma fold_fillna_unique_filled:
  assumes "\<forall>(i, r)\<in>set df. \<forall>c\<in>S. cells r c \<noteq> NA"
  shows "\<forall>(i, r)\<in>set (fold fillna_unique cols df). \<forall>c\<in>S \<union> set cols. cells r c \<noteq> NA"
  using assms
proof (induction cols arbitrary: df S)
  case Nil
  then show ?case by simp
next
  case (Cons a cols)
  have "\<forall>(i, r)\<in>set (fillna_unique a df). \<forall>c\<in>insert a S. cells r c \<noteq> NA"
  proof (clarify)
    fix i r c assume in_set: "(i, r) \<in> set (fillna_unique a df)" and c: "c \<in> insert a S"
      and na: "cells r c = NA"
    from fillna_unique_keeps [OF in_set] obtain r0 where r0: "(i, r0) \<in> set df"
      "\<forall>c'. cells r0 c' \<noteq> NA \<longrightarrow> cells r c' = cells r0 c'" by blast
    show False
    proof (cases "c = a")
      case True
      with fillna_unique_filled [OF in_set] na show False by simp
    next
      case False
      with c have "c \<in> S" by simp
      with Cons.prems r0(1) have "cells r0 c \<noteq> NA" by blast
      with r0(2) na show False by simp
    qed
  qed
  from Cons.IH [OF this] show ?case by simp
qed

lemma remdups_replicate_eq: "remdups (replicate n x) = (if n = 0 then [] else [x])"
  by (induction n) auto

lemma groupby_agg_one_group:
  assumes "df \<noteq> []" "\<forall>(i, r)\<in>set df. group_key K r = k" "NA \<notin> set k"
  shows "groupby_agg K df = [agg (map snd df)]"
proof -
  let ?rows = "map snd df"
  from assms(2) have all: "\<forall>r\<in>set ?rows. group_key K r = k" by auto
  with assms(3) have rows: "filter (\<lambda>r. NA \<notin> set (group_key K r)) ?rows = ?rows"
    by (intro filter_True) auto
  from all have "map (group_key K) ?rows = replicate (length ?rows) k"
    by (simp add: map_replicate_const [symmetric] cong: map_cong)
  with assms(1) have keys: "sort (remdups (map (group_key K) ?rows)) = [k]"
    by (simp add: remdups_replicate_eq)
  from all have "filter (\<lambda>r. group_key K r = k) ?rows = ?rows"
    by (intro filter_True) auto
  then show ?thesis
    unfolding groupby_agg_def Let_def rows keys by simp
qed

lemma aggregate_single_row:
  "map (\<lambda>(i, r). nameplate_capacity r) (aggregate K [(i, r)]) = [agg_sum [nameplate_capacity r]]"
proof -
  let ?df = "fold fillna_unique K [(i, r)]"
  have len: "length ?df = 1" by simp
  then obtain j r' where df: "?df = [(j, r')]" by (cases ?df) auto
  have "\<forall>(i, r)\<in>set ?df. \<forall>c\<in>{} \<union> set K. cells r c \<noteq> NA"
    by (rule fold_fillna_unique_filled) simp
  with df have "NA \<notin> set (group_key K r')" by (auto simp: group_key_def)
  with df have "groupby_agg K ?df = [agg (map snd ?df)]"
    by (intro groupby_agg_one_group) auto
  moreover from map_capacity_fold_fillna_unique [of K "[(i, r)]"] df
  have "nameplate_capacity r' = nameplate_capacity r" by simp
  ultimately show ?thesis
    by (simp add: aggregate_def reset_index_def df agg_def)
qed

text \<open>
  Claim C6 at a failing input.  The existing generators come out of a merge and are
  labelled 0, 1, 2, ...; the proposed generators are appended with the labels they were
  read with, again 0, 1, 2, ....  The placeholder is computed from the label, so the first
  existing and the first proposed generator get the same placeholder for their missing
  unit code, fall into one group of the first round, and come out as one unit of 150 MW.
\<close>

theorem missing_unit_codes_merged:
  "map (\<lambda>(i, r). (i, group_key [Plant_Code, Unit_Code] r))
     (fold fillna_unique [Plant_Code, Unit_Code]
        (combined_cycle (filter_status
           (append_frames (reset_index [existing_unit]) (reset_index [proposed_unit]))))) =
     [(0, [Number 1, Number 10000000]), (0, [Number 1, Number 10000000])] \<and>
   map (\<lambda>(i, r). nameplate_capacity r) (parse_eia860_data [existing_unit] [proposed_unit]) =
     [Some 150]"
proof -
  let ?K = "[Plant_Code, Unit_Code]"
  define df where "df = combined_cycle (filter_status
           (append_frames (reset_index [existing_unit]) (reset_index [proposed_unit])))"
  define filled where "filled = fold fillna_unique ?K df"
  have df: "df = [(0, existing_unit), (0, proposed_unit)]"
    by (simp add: df_def append_frames_def reset_index_def filter_status_def combined_cycle_def
        accepted_status_codes_def existing_unit_def proposed_unit_def)
  have keys: "map (\<lambda>(i, r). (i, group_key ?K r)) filled =
     [(0, [Number 1, Number 10000000]), (0, [Number 1, Number 10000000])]"
    unfolding filled_def df
    by (simp add: existing_unit_def proposed_unit_def fillna_unique_def placeholder_def
        is_float64_def group_key_def)
  have caps: "map (\<lambda>(i, r). nameplate_capacity r) filled = [Some 50, Some 100]"
    unfolding filled_def df by (simp add: existing_unit_def proposed_unit_def)
  from keys have same: "\<forall>(i, r)\<in>set filled. group_key ?K r = [Number 1, Number 10000000]"
    by (auto simp: map_eq_Cons_conv)
  from keys have ne: "filled \<noteq> []" by auto
  have "groupby_agg ?K filled = [agg (map snd filled)]"
    using ne same by (rule groupby_agg_one_group) simp
  then have first: "aggregate ?K df = [(0, agg (map snd filled))]"
    by (simp add: aggregate_def reset_index_def filled_def)
  have "map nameplate_capacity (map snd filled) = [Some 50, Some 100]"
    using caps by (simp add: case_prod_unfold comp_def)
  then have cap1: "nameplate_capacity (agg (map snd filled)) = Some 150"
    by (simp add: agg_def agg_sum_def map_filter_simps)
  have "parse_eia860_data [existing_unit] [proposed_unit] =
      aggregate [Plant_Code, Prime_Mover, Energy_Source, Operating_Year] (aggregate ?K df)"
    by (simp add: parse_eia860_data_def aggregate_all_def gen_aggregation_lists_def df_def)
  then have "map (\<lambda>(i, r). nameplate_capacity r) (parse_eia860_data [existing_unit] [proposed_unit]) =
     [agg_sum [Some 150]]"
    by (simp only: first aggregate_single_row cap1)
  with keys show ?thesis by (simp add: agg_sum_def map_filter_simps filled_def df_def)
qed

subsection \<open>Running the loop again\<close>

text \<open>
  A frame with one row per key comes out of a round on that key with its rows unchanged,
  in the order of their keys.
\<close>

lemma aggregated_one_row_per_key: "aggregated K rows \<Longrightarrow> one_row_per_key K rows"
  by (simp add: aggregated_def one_row_per_key_def)

lemma distinct_map_sort_key:
  "distinct (map f xs) \<Longrightarrow> distinct (map f (sort_key g xs))"
  by (simp add: distinct_map)

lemma sort_map_distinct:
  assumes "distinct (map f xs)"
  shows "sort (map f xs) = map f (sort_key f xs)"
proof (rule sorted_distinct_set_unique)
  show "sorted (sort (map f xs))" by simp
  show "distinct (sort (map f xs))" using assms by simp
  show "sorted (map f (sort_key f xs))" by simp
  show "distinct (map f (sort_key f xs))" using assms by (rule distinct_map_sort_key)
  show "set (sort (map f xs)) = set (map f (sort_key f xs))" by simp
qed

lemma fold_fillna_no_missing:
  assumes "\<forall>r\<in>set rows. NA \<notin> set (group_key K r)"
  shows "fold fillna_unique K (reset_index rows) = reset_index rows"
proof (rule fold_fillna_unique_id, clarify)
  fix i r' col assume "(i, r') \<in> set (reset_index rows)" "col \<in> set K" "cells r' col = NA"
  then have "r' \<in> set rows" by (auto simp: reset_index_def dest: set_zip_rightD)
  with assms have "NA \<notin> set (group_key K r')" by blast
  with \<open>col \<in> set K\<close> \<open>cells r' col = NA\<close> show False by (force simp: group_key_def)
qed

lemma aggregate_one_row_per_key:
  assumes "one_row_per_key K rows"
  shows "aggregate K (reset_index rows) = reset_index (sort_key (group_key K) rows)"
proof -
  from assms have d: "distinct (map (group_key K) rows)"
    and r: "\<forall>r\<in>set rows. NA \<notin> set (group_key K r) \<and> nameplate_capacity r \<noteq> None"
    by (auto simp: one_row_per_key_def)
  from r have fill: "fold fillna_unique K (reset_index rows) = reset_index rows"
    by (intro fold_fillna_no_missing) blast
  have rows: "filter (\<lambda>r. NA \<notin> set (group_key K r)) rows = rows"
    using r by (intro filter_True) auto
  have keys: "sort (remdups (map (group_key K) rows)) =
      map (group_key K) (sort_key (group_key K) rows)"
    using d by (simp add: distinct_remdups_id sort_map_distinct)
  have "map (\<lambda>x. agg (filter (\<lambda>r. group_key K r = group_key K x) rows))
          (sort_key (group_key K) rows) = sort_key (group_key K) rows"
  proof (rule map_idI)
    fix x assume "x \<in> set (sort_key (group_key K) rows)"
    then have x: "x \<in> set rows" by simp
    from filter_unique_key [OF d x] r x
    show "agg (filter (\<lambda>r. group_key K r = group_key K x) rows) = x"
      by (simp add: agg_single)
  qed
  then have "groupby_agg K (reset_index rows) = sort_key (group_key K) rows"
    by (simp add: groupby_agg_def Let_def rows keys comp_def)
  then show ?thesis by (simp add: aggregate_def fill)
qed

lemma one_row_per_key_sort_key:
  "one_row_per_key K rows \<Longrightarrow> one_row_per_key K (sort_key f rows)"
  by (simp add: one_row_per_key_def distinct_map)

lemma sort_key_back:
  assumes s: "sorted (map f xs)" and d: "distinct (map f xs)"
  shows "sort_key f (sort_key g xs) = xs"
proof -
  let ?zs = "sort_key f (sort_key g xs)"
  from d have inj: "inj_on f (set xs)" and dx: "distinct xs" by (simp_all add: distinct_map)
  have "map f ?zs = map f xs"
  proof (rule sorted_distinct_set_unique)
    show "sorted (map f ?zs)" by simp
    show "distinct (map f ?zs)" using d by (simp add: distinct_map)
    show "sorted (map f xs)" by (rule s)
    show "distinct (map f xs)" by (rule d)
    show "set (map f ?zs) = set (map f xs)" by simp
  qed
  moreover have "inj_on f (set ?zs \<union> set xs)" using inj by simp
  ultimately show ?thesis by (simp add: inj_on_map_eq_map)
qed


lemma map_key_fillna_unique:
  assumes "\<forall>k\<in>set (map (\<lambda>(i, r). group_key K r) df). NA \<notin> set k"
  shows "map (\<lambda>(i, r). group_key K r) (fillna_unique c df) = map (\<lambda>(i, r). group_key K r) df"
  unfolding fillna_unique_def map_map
proof (rule map_cong [OF refl])
  fix x assume x: "x \<in> set df"
  obtain i r where ir: "x = (i, r)" by (cases x)
  with x assms have na: "NA \<notin> set (group_key K r)" by force
  have "group_key K (r\<lparr>cells := (cells r)(c := v)\<rparr>) = group_key K r" if "cells r c = NA" for v
  proof -
    from na that have "c \<notin> set K" by (force simp: group_key_def)
    then show ?thesis by (simp add: group_key_def)
  qed
  then show "((\<lambda>(i, r). group_key K r) \<circ>
       (\<lambda>(i, r). (i, if cells r c = NA then r\<lparr>cells := (cells r)(c := placeholder c df i)\<rparr> else r))) x =
      (case x of (i, r) \<Rightarrow> group_key K r)"
    by (simp add: ir)
qed

lemma map_key_fold_fillna_unique:
  assumes "\<forall>k\<in>set (map (\<lambda>(i, r). group_key K r) df). NA \<notin> set k"
  shows "map (\<lambda>(i, r). group_key K r) (fold fillna_unique cols df) =
     map (\<lambda>(i, r). group_key K r) df"
  using assms
proof (induction cols arbitrary: df)
  case Nil
  then show ?case by simp
next
  case (Cons c cols)
  have eq: "map (\<lambda>(i, r). group_key K r) (fillna_unique c df) = map (\<lambda>(i, r). group_key K r) df"
    by (rule map_key_fillna_unique [OF Cons.prems])
  with Cons.prems have "\<forall>k\<in>set (map (\<lambda>(i, r). group_key K r) (fillna_unique c df)). NA \<notin> set k"
    by simp
  from Cons.IH [OF this] eq show ?case by simp
qed

lemma agg_max_attained:
  assumes "xs \<noteq> []" "NA \<notin> set xs"
  shows "agg_max xs \<in> set xs"
proof -
  from assms(2) have f: "filter (\<lambda>x. x \<noteq> NA) xs = xs" by (intro filter_True) auto
  have "Max (set xs) \<in> set xs" using assms(1) by (intro Max_in) simp_all
  with assms(1) show ?thesis unfolding agg_max_def f by simp
qed

text \<open>
  A group whose rows agree on \<open>p\<close>: its reduced row has the key \<open>[p, u]\<close> of one of its
  rows, the one with the greatest \<open>u\<close>.
\<close>

lemma pair_key_agg:
  assumes ne: "g \<noteq> []" and same: "\<forall>r\<in>set g. \<forall>r'\<in>set g. cells r p = cells r' p"
    and na: "\<forall>r\<in>set g. NA \<notin> set (group_key [p, u] r)"
  shows "\<exists>r\<in>set g. group_key [p, u] (agg g) = group_key [p, u] r"
proof -
  let ?us = "map (\<lambda>r. cells r u) g"
  have cell: "cells r p \<noteq> NA \<and> cells r u \<noteq> NA" if "r \<in> set g" for r
    using bspec [OF na that] by (simp add: group_key_def) metis
  from ne have "?us \<noteq> []" by simp
  moreover have "NA \<notin> set ?us"
  proof
    assume "NA \<in> set ?us"
    then obtain r where "r \<in> set g" "cells r u = NA" by (auto simp: image_iff)
    with cell show False by simp
  qed
  ultimately have "agg_max ?us \<in> set ?us" by (rule agg_max_attained)
  then obtain r where r: "r \<in> set g" "agg_max ?us = cells r u" by (auto simp: image_iff)
  have "agg_max (map (\<lambda>r. cells r p) g) = cells r p"
  proof (rule agg_max_const)
    show "map (\<lambda>r. cells r p) g \<noteq> []" using ne by simp
    show "\<forall>x\<in>set (map (\<lambda>r. cells r p) g). x = cells r p"
    proof
      fix x assume "x \<in> set (map (\<lambda>r. cells r p) g)"
      then obtain r' where "r' \<in> set g" "x = cells r' p" by (auto simp: image_iff)
      with same r(1) show "x = cells r p" by blast
    qed
    show "cells r p \<noteq> NA" using cell [OF r(1)] by simp
  qed
  with r(2) have "group_key [p, u] (agg g) = group_key [p, u] r"
    by (simp add: group_key_def agg_def)
  with r(1) show ?thesis by (rule_tac x = r in bexI)
qed

lemma groupby_agg_keeps_pair_key:
  assumes p: "p \<in> set K"
    and d: "distinct (map (\<lambda>(i, r). group_key [p, u] r) df)"
    and na1: "\<forall>(i, r)\<in>set df. NA \<notin> set (group_key [p, u] r)"
    and na2: "\<forall>(i, r)\<in>set df. NA \<notin> set (group_key K r)"
  shows "one_row_per_key [p, u] (groupby_agg K df)"
proof -
  define f1 where "f1 = group_key [p, u]"
  define f2 where "f2 = group_key K"
  define rows where "rows = map snd df"
  define keys where "keys = sort (remdups (map f2 rows))"
  define G where "G = (\<lambda>k. filter (\<lambda>r. f2 r = k) rows)"
  from na2 have "filter (\<lambda>r. NA \<notin> set (group_key K r)) (map snd df) = rows"
    unfolding rows_def by (intro filter_True) auto
  then have out: "groupby_agg K df = map (\<lambda>k. agg (G k)) keys"
    by (simp add: groupby_agg_def Let_def keys_def G_def f2_def)
  from d have d1: "distinct (map f1 rows)"
    by (simp add: rows_def f1_def case_prod_unfold comp_def)
  then have inj: "inj_on f1 (set rows)" by (simp add: distinct_map)
  from na1 have n1: "\<forall>r\<in>set rows. NA \<notin> set (f1 r)"
    by (auto simp: rows_def f1_def)
  have set_keys: "set keys = f2 ` set rows" by (simp add: keys_def)
  have rep: "\<exists>r\<in>set rows. f2 r = k \<and> f1 (agg (G k)) = f1 r" if "k \<in> set keys" for k
  proof -
    from that set_keys obtain r0 where "r0 \<in> set rows" "k = f2 r0" by auto
    then have "r0 \<in> set (G k)" by (simp add: G_def)
    then have ne: "G k \<noteq> []" by auto
    have same: "\<forall>r\<in>set (G k). \<forall>r'\<in>set (G k). cells r p = cells r' p"
    proof (intro ballI)
      fix r r' assume "r \<in> set (G k)" "r' \<in> set (G k)"
      then have "map (cells r) K = map (cells r') K" by (simp add: G_def f2_def group_key_def)
      with p show "cells r p = cells r' p" by simp
    qed
    have na: "\<forall>r\<in>set (G k). NA \<notin> set (group_key [p, u] r)"
      using n1 by (simp add: G_def f1_def)
    from pair_key_agg [OF ne same na] obtain r where "r \<in> set (G k)"
      "group_key [p, u] (agg (G k)) = group_key [p, u] r" by blast
    then show ?thesis by (auto simp: G_def f1_def)
  qed
  have "inj_on (\<lambda>k. f1 (agg (G k))) (set keys)"
  proof (rule inj_onI)
    fix k k' assume k: "k \<in> set keys" and k': "k' \<in> set keys"
      and eq: "f1 (agg (G k)) = f1 (agg (G k'))"
    from rep [OF k] obtain r where r: "r \<in> set rows" "f2 r = k" "f1 (agg (G k)) = f1 r" by blast
    from rep [OF k'] obtain r' where r': "r' \<in> set rows" "f2 r' = k'" "f1 (agg (G k')) = f1 r'"
      by blast
    from eq r(3) r'(3) have "f1 r = f1 r'" by simp
    from inj this r(1) r'(1) have "r = r'" by (rule inj_onD)
    with r(2) r'(2) show "k = k'" by simp
  qed
  moreover have "distinct keys" by (simp add: keys_def)
  ultimately have 1: "distinct (map f1 (groupby_agg K df))"
    by (simp add: out distinct_map comp_def)
  have 2: "NA \<notin> set (f1 x) \<and> nameplate_capacity x \<noteq> None" if "x \<in> set (groupby_agg K df)" for x
  proof -
    from that obtain k where k: "k \<in> set keys" and x: "x = agg (G k)" unfolding out by auto
    from rep [OF k] obtain r where "r \<in> set rows" "f1 (agg (G k)) = f1 r" by blast
    with n1 x show ?thesis by (simp add: nameplate_capacity_agg)
  qed
  from 1 2 show ?thesis unfolding one_row_per_key_def f1_def by blast
qed

text \<open>
  Two rounds, the first on \<open>[p, u]\<close> and the second on a key list that holds \<open>p\<close>.  The
  rows that the second round merges agree on \<open>p\<close> and came out of the first round with
  different \<open>u\<close>, so the merged rows, which carry the greatest \<open>u\<close> of their group,
  still differ on \<open>[p, u]\<close>: run again, the first round only reorders them and the
  second round puts them back in place.
\<close>

lemma two_rounds_idempotent:
  assumes p: "p \<in> set K"
  shows "aggregate_all [[p, u], K] (aggregate_all [[p, u], K] df) = aggregate_all [[p, u], K] df"
proof -
  define m where "m = groupby_agg [p, u] (fold fillna_unique [p, u] df)"
  define filled where "filled = fold fillna_unique K (reset_index m)"
  define out where "out = groupby_agg K filled"
  have m: "aggregated [p, u] m" unfolding m_def by (rule groupby_agg_aggregated)
  have o: "aggregated K out" unfolding out_def by (rule groupby_agg_aggregated)
  have all: "aggregate_all [[p, u], K] d = aggregate K (aggregate [p, u] d)" for d
    by (simp add: aggregate_all_def)
  have res: "aggregate_all [[p, u], K] df = reset_index out"
    by (simp add: all aggregate_def m_def filled_def out_def)
  have keys_m: "map (\<lambda>(i, r). group_key [p, u] r) (reset_index m) = map (group_key [p, u]) m"
  proof -
    have "map (\<lambda>(i, r). group_key [p, u] r) (reset_index m) =
        map (group_key [p, u]) (map snd (reset_index m))"
      by (simp add: case_prod_unfold comp_def del: map_snd_reset_index)
    then show ?thesis by simp
  qed
  from m have na_m: "\<forall>k\<in>set (map (group_key [p, u]) m). NA \<notin> set k"
    by (auto simp: aggregated_def)
  have keys_f: "map (\<lambda>(i, r). group_key [p, u] r) filled = map (group_key [p, u]) m"
    unfolding filled_def using map_key_fold_fillna_unique [of "[p, u]" "reset_index m" K] na_m
    by (simp only: keys_m)
  have d: "distinct (map (\<lambda>(i, r). group_key [p, u] r) filled)"
    unfolding keys_f using m by (simp add: aggregated_def)
  have na1: "\<forall>(i, r)\<in>set filled. NA \<notin> set (group_key [p, u] r)"
  proof (clarify)
    fix i r assume "(i, r) \<in> set filled" "NA \<in> set (group_key [p, u] r)"
    then have "group_key [p, u] r \<in> set (map (\<lambda>(i, r). group_key [p, u] r) filled)" by force
    with na_m \<open>NA \<in> set (group_key [p, u] r)\<close> show False unfolding keys_f by blast
  qed
  have "\<forall>(i, r)\<in>set filled. \<forall>c\<in>{} \<union> set K. cells r c \<noteq> NA"
    unfolding filled_def by (rule fold_fillna_unique_filled) simp
  then have na2: "\<forall>(i, r)\<in>set filled. NA \<notin> set (group_key K r)"
    by (force simp: group_key_def)
  have pair: "one_row_per_key [p, u] out"
    unfolding out_def by (rule groupby_agg_keeps_pair_key [OF p d na1 na2])
  have 1: "aggregate [p, u] (reset_index out) = reset_index (sort_key (group_key [p, u]) out)"
    by (rule aggregate_one_row_per_key [OF pair])
  have "one_row_per_key K (sort_key (group_key [p, u]) out)"
    by (rule one_row_per_key_sort_key [OF aggregated_one_row_per_key [OF o]])
  then have 2: "aggregate K (reset_index (sort_key (group_key [p, u]) out)) =
      reset_index (sort_key (group_key K) (sort_key (group_key [p, u]) out))"
    by (rule aggregate_one_row_per_key)
  from o have 3: "sort_key (group_key K) (sort_key (group_key [p, u]) out) = out"
    by (intro sort_key_back) (simp_all add: aggregated_def)
  have "aggregate_all [[p, u], K] (reset_index out) = reset_index out"
    unfolding all [of "reset_index out"] 1 2 3 by (rule refl)
  then show ?thesis unfolding res .
qed

text \<open>
  Claim C9.  The key sequence of the aggregation is \<^verbatim>\<open>gen_aggregation_lists\<close>: first plant
  and unit code, then plant, prime mover, energy source and operating year.  Running the
  whole loop over it on a frame that came out of that loop gives the same frame: the same
  rows, in the same order, with the same capacity and the same value in every other
  column.  The same holds for a loop over a single key list, which is how the retired
  units are aggregated.
\<close>

theorem aggregate_idempotent:
  "aggregate_all gen_aggregation_lists (aggregate_all gen_aggregation_lists generators) =
     aggregate_all gen_aggregation_lists generators \<and>
   aggregate_all [agg_list] (aggregate_all [agg_list] df) = aggregate_all [agg_list] df"
proof
  show "aggregate_all gen_aggregation_lists (aggregate_all gen_aggregation_lists generators) =
     aggregate_all gen_aggregation_lists generators"
    unfolding gen_aggregation_lists_def by (rule two_rounds_idempotent) simp
  have "aggregate agg_list (aggregate agg_list df) = aggregate agg_list df"
    unfolding aggregate_def [of agg_list df]
    by (rule aggregate_aggregated) (rule groupby_agg_aggregated)
  then show "aggregate_all [agg_list] (aggregate_all [agg_list] df) = aggregate_all [agg_list] df"
    by (simp add: aggregate_all_def)
qed

end
